theory Spec2Isabelle
  imports Complex_Main "HOL-Library.FSet" "HOL-Library.Finite_Map" "HOL-Library.Multiset"
begin

section \<open>Exceptions\<close>

text \<open>
  The exceptions the Java sources can raise. A method that may throw returns a value of
  \<open>exn + 'a\<close>, with \<open>Inl\<close> for the exception.

  \<^item> \<open>IllegalArgumentException\<close> is thrown explicitly by \<open>LabeledGraph\<close> and \<open>CampusMap\<close>.
  \<^item> \<open>AssertionError\<close> is what a failing Java \<open>assert\<close> raises when the JVM runs with
    assertions enabled (\<open>java -ea\<close>); with assertions disabled, the default, an \<open>assert\<close>
    statement does nothing. Functions whose behaviour depends on it take the flag \<open>ea\<close>.
  \<^item> \<open>NullPointerException\<close> is raised by dereferencing the \<open>null\<close> that \<open>Map.get\<close> returns
    for a missing key.
  \<^item> \<open>RuntimeException\<close> is thrown by the \<open>checkRep\<close> methods.
\<close>

datatype exn =
    IllegalArgumentException
  | AssertionError
  | NullPointerException
  | RuntimeException

section \<open>Data\<close>

text \<open>
  \<open>LabeledEdge<E, T>\<close> (src/unnamed/part\_001): an immutable triple whose \<open>equals\<close> compares
  label, origin and destination, so Java equality of edges is HOL equality of the record.
  Its \<open>checkRep\<close> throws only for a \<open>null\<close> field.

  Every method of \<open>LabeledEdge\<close> and \<open>LabeledGraph\<close> has the clause
  \<open>@spec.requires\<close> "argument is not null". Nodes and labels are therefore values of the
  types \<open>'e\<close> and \<open>'t\<close>, which have no \<open>null\<close>, and the statements
  \<open>assert x != null\<close>, which guard exactly that precondition, have no counterpart here.
\<close>

record ('e, 't) LabeledEdge =
  nodeFrom :: 'e
  nodeTo :: 'e
  label :: 't

text \<open>
  \<open>LabeledGraph<E, T>\<close> (LabeledGraph.java): the fields are a \<open>HashSet\<close> of nodes and a
  \<open>HashMap\<close> from each node to the \<open>HashSet\<close> of its outgoing edges. Hash sets and hash maps
  are finite and unordered: \<open>fset\<close> and \<open>fmap\<close>.

  The private \<open>checkRep\<close> of the graph only tests \<open>neighbors == null\<close>, since
  \<open>DEBUG = false\<close>; the field is never null, so the calls do nothing.
\<close>

record ('e, 't) LabeledGraph =
  nodes :: "'e fset"
  neighbors :: "('e, ('e, 't) LabeledEdge fset) fmap"

text \<open>
  Modelled from the spec: the class \<open>pathfinder.datastructures.Path\<close> is not among the
  sources; only its uses are (\<open>new Path<>(start)\<close>, \<open>getEnd\<close>, \<open>getCost\<close>, \<open>extend\<close> and the
  iteration over \<open>Segment\<close>s with \<open>getStart\<close>, \<open>getEnd\<close>, \<open>getCost\<close>). The spec, sections 3 and
  4.2: a path is an ordered sequence of segments (start node, end node, cost); it is
  constructed from a single start node with zero segments and cost 0; its end is the last
  segment's end, or the sole node when it has no segment; its cost is the sum of the
  segment costs; \<open>extend(nextNode, edgeCost)\<close> returns a new path with one more segment
  from the current end to \<open>nextNode\<close>, of cost old cost + \<open>edgeCost\<close>.

  Costs are Java \<open>double\<close>s: the solver casts every label to \<open>Double\<close> and orders its
  queue with \<open>Comparator.comparingDouble(Path::getCost)\<close>. A \<open>double\<close> is taken here as the
  real number it stands for, with the order of the reals; the infinities and NaN are
  outside the model. The sum of two \<open>double\<close>s is in general not a \<open>double\<close>, and Java's
  \<open>+\<close> yields a \<open>double\<close> next to it: the addition of costs is not the addition of the
  reals. It is the parameter \<open>dplus\<close> of every definition below that adds costs.
\<close>

record 'e Segment =
  segStart :: 'e
  segEnd :: 'e
  segCost :: real

record 'e Path =
  pathStart :: 'e
  pathSegments :: "'e Segment list"

text \<open>
  Modelled from the spec: the classes \<open>Point\<close>, \<open>CampusBuilding\<close> and \<open>CampusPath\<close> are not
  among the sources. The spec, sections 3 and 6: a point is a pair of coordinates with
  exact equality; a building record is \<open>{shortName, longName, x, y}\<close>; a path record is
  \<open>{x1, y1, x2, y2, distance}\<close>. The parser hands the records over as values, so the names
  of a building are strings, never \<open>null\<close>.
\<close>

record Point =
  ptX :: real
  ptY :: real

record CampusBuilding =
  shortName :: string
  longName :: string
  bldgX :: real
  bldgY :: real

record CampusPath =
  pathX1 :: real
  pathY1 :: real
  pathX2 :: real
  pathY2 :: real
  distance :: real

text \<open>
  \<open>CampusMap\<close> (CampusMap.java). The key of \<open>shortestPathMap\<close> is a \<open>ShortestPathPair\<close>, whose
  \<open>equals\<close> compares \<open>start\<close> with \<open>start\<close> and \<open>end\<close> with \<open>end\<close>: an ordered pair. A value of
  that map may be \<open>null\<close>, the solver's "no path": \<open>Some None\<close> under \<open>fmlookup\<close>.
\<close>

record CampusMap =
  graph :: "(Point, real) LabeledGraph"
  pointToBuildings :: "(Point, CampusBuilding) fmap"
  shortNameToPoint :: "(string, Point) fmap"
  shortestPathMap :: "(string \<times> string, Point Path option) fmap"
  buildings :: "CampusBuilding fset"

section \<open>LabeledGraph\<close>

definition LabeledGraph_new :: "('e, 't) LabeledGraph" where
  "LabeledGraph_new = \<lparr>nodes = {||}, neighbors = fmempty\<rparr>"

definition contains :: "('e, 't) LabeledGraph \<Rightarrow> 'e \<Rightarrow> bool" where
  "contains g node = (node |\<in>| fmdom (neighbors g))"

definition addNode :: "('e, 't) LabeledGraph \<Rightarrow> 'e \<Rightarrow> bool \<times> ('e, 't) LabeledGraph" where
  "addNode g add =
     (if add |\<in>| nodes g then (False, g)
      else (True, g\<lparr>neighbors := fmupd add {||} (neighbors g),
                     nodes := finsert add (nodes g)\<rparr>))"

definition addEdge ::
  "('e, 't) LabeledGraph \<Rightarrow> 'e \<Rightarrow> 'e \<Rightarrow> 't \<Rightarrow> (exn + bool) \<times> ('e, 't) LabeledGraph" where
  "addEdge g from to lbl =
     (if \<not> contains g from \<or> \<not> contains g to then (Inl IllegalArgumentException, g)
      else case fmlookup (neighbors g) from of
        None \<Rightarrow> (Inl NullPointerException, g)
      | Some edgeSet \<Rightarrow>
          (let edge = \<lparr>nodeFrom = from, nodeTo = to, label = lbl\<rparr> in
           if edge |\<notin>| edgeSet
           then (Inr True, g\<lparr>neighbors := fmupd from (finsert edge edgeSet) (neighbors g)\<rparr>)
           else (Inr False, g)))"

definition removeEdge ::
  "('e, 't) LabeledGraph \<Rightarrow> 'e \<Rightarrow> 'e \<Rightarrow> 't \<Rightarrow>
     (exn + ('e, 't) LabeledEdge option) \<times> ('e, 't) LabeledGraph" where
  "removeEdge g from to lbl =
     (if \<not> contains g from \<or> \<not> contains g to then (Inl IllegalArgumentException, g)
      else case fmlookup (neighbors g) from of
        None \<Rightarrow> (Inl NullPointerException, g)
      | Some edgeSet \<Rightarrow>
          (let edge = \<lparr>nodeFrom = from, nodeTo = to, label = lbl\<rparr> in
           if edge |\<notin>| edgeSet then (Inr None, g)
           else (Inr (Some edge),
                 g\<lparr>neighbors := fmupd from (edgeSet |-| {|edge|}) (neighbors g)\<rparr>)))"

definition listEdgesOut ::
  "('e, 't) LabeledGraph \<Rightarrow> 'e \<Rightarrow> exn + ('e, 't) LabeledEdge fset" where
  "listEdgesOut g node =
     (case fmlookup (neighbors g) node of
        None \<Rightarrow> Inl IllegalArgumentException
      | Some edgeSet \<Rightarrow> Inr edgeSet)"

text \<open>
  \<open>numEdges\<close> tests the membership of its two nodes with \<open>assert\<close>, not with a thrown
  exception. With assertions disabled, \<open>this.neighbors.get(n1)\<close> is \<open>null\<close> for a missing
  \<open>n1\<close> and the \<open>for\<close> loop over it raises \<open>NullPointerException\<close>; a missing \<open>n2\<close> is not
  noticed. The loop counts the edges of the set whose destination equals \<open>n2\<close>.
\<close>

definition numEdges :: "bool \<Rightarrow> ('e, 't) LabeledGraph \<Rightarrow> 'e \<Rightarrow> 'e \<Rightarrow> exn + nat" where
  "numEdges ea g n1 n2 =
     (if ea \<and> \<not> contains g n1 then Inl AssertionError
      else if ea \<and> \<not> contains g n2 then Inl AssertionError
      else case fmlookup (neighbors g) n1 of
        None \<Rightarrow> Inl NullPointerException
      | Some edgeSet \<Rightarrow> Inr (fcard (ffilter (\<lambda>edge. nodeTo edge = n2) edgeSet)))"

text \<open>
  \<open>listNodes\<close> copies the node set into an \<open>ArrayList\<close> and sorts the list with
  \<open>Comparator.comparingInt(Object::hashCode)\<close>. The order in which the copy constructor
  reads the \<open>HashSet\<close> is the set's iteration order, the parameter \<open>toList\<close>; the nodes'
  \<open>hashCode\<close> is the parameter \<open>hashCode\<close>. \<open>List.sort\<close> is a stable sort, as \<open>sort_key\<close> is.
\<close>

definition listNodes ::
  "('e \<Rightarrow> int) \<Rightarrow> ('e fset \<Rightarrow> 'e list) \<Rightarrow> ('e, 't) LabeledGraph \<Rightarrow> 'e list" where
  "listNodes hashCode toList g = sort_key hashCode (toList (nodes g))"

text \<open>An iteration order of a hash set lists each of its elements once.\<close>

definition iterates :: "('e fset \<Rightarrow> 'e list) \<Rightarrow> 'e fset \<Rightarrow> bool" where
  "iterates toList s = (distinct (toList s) \<and> set (toList s) = fset s)"

text \<open>
  The representation invariant written in \<open>LabeledGraph\<close> and tested by its \<open>checkRep\<close>
  under \<open>DEBUG\<close>: the node set is the key set of \<open>neighbors\<close>, and every edge leads to a
  node of the graph.
\<close>

definition repOK :: "('e, 't) LabeledGraph \<Rightarrow> bool" where
  "repOK g =
     (nodes g = fmdom (neighbors g) \<and>
      (\<forall>node edgeSet edge. fmlookup (neighbors g) node = Some edgeSet \<longrightarrow>
         edge |\<in>| edgeSet \<longrightarrow> nodeTo edge |\<in>| nodes g))"

text \<open>
  Every node of the graph satisfies \<open>okNode\<close>, and so do the endpoints of every stored
  edge; every stored label satisfies \<open>okLabel\<close>.
\<close>

definition storesOnly ::
  "('e \<Rightarrow> bool) \<Rightarrow> ('t \<Rightarrow> bool) \<Rightarrow> ('e, 't) LabeledGraph \<Rightarrow> bool" where
  "storesOnly okNode okLabel g =
     ((\<forall>node. node |\<in>| nodes g \<longrightarrow> okNode node) \<and>
      (\<forall>node. node |\<in>| fmdom (neighbors g) \<longrightarrow> okNode node) \<and>
      (\<forall>node edgeSet edge. fmlookup (neighbors g) node = Some edgeSet \<longrightarrow>
         edge |\<in>| edgeSet \<longrightarrow>
         okNode (nodeFrom edge) \<and> okNode (nodeTo edge) \<and> okLabel (label edge)))"

section \<open>Path\<close>

definition Path_new :: "'e \<Rightarrow> 'e Path" where
  "Path_new node = \<lparr>pathStart = node, pathSegments = []\<rparr>"

definition getEnd :: "'e Path \<Rightarrow> 'e" where
  "getEnd p = (if pathSegments p = [] then pathStart p else segEnd (last (pathSegments p)))"

text \<open>
  The cost of a path is 0 when the path is new and, for an extended path, the cost of the
  path it extends \<open>+\<close> the cost of the new segment: the costs of the segments added up
  from the left, in the order of the path, each addition being the \<open>double\<close> addition
  \<open>dplus\<close>.
\<close>

definition getCost :: "(real \<Rightarrow> real \<Rightarrow> real) \<Rightarrow> 'e Path \<Rightarrow> real" where
  "getCost dplus p = foldl dplus 0 (map segCost (pathSegments p))"

definition extend :: "'e Path \<Rightarrow> 'e \<Rightarrow> real \<Rightarrow> 'e Path" where
  "extend p newEnd segmentCost =
     p\<lparr>pathSegments := pathSegments p @
          [\<lparr>segStart = getEnd p, segEnd = newEnd, segCost = segmentCost\<rparr>]\<rparr>"

text \<open>
  The cost of a path in the spec's words, "the sum of segment costs", the weights being
  real distances: the sum in the real numbers, which no addition rounds.
\<close>

definition exactCost :: "'e Path \<Rightarrow> real" where
  "exactCost p = sum_list (map segCost (pathSegments p))"

subsection \<open>Addition of costs\<close>

text \<open>
  What the proofs below need of \<open>dplus\<close>, on costs that are not negative: adding the same
  weight to two costs keeps their order; adding a weight to the cost 0 gives a cost that
  is not negative; and adding a weight to a cost that is itself the result of an addition
  does not give less. The addition of the reals has the three properties. So has Java's
  \<open>+\<close> on \<open>double\<close>s, which rounds the real sum of two \<open>double\<close>s to a nearest \<open>double\<close>:
  rounding keeps the order of the sums it rounds, and it leaves a sum alone that is a
  \<open>double\<close> already, as 0 and every result of an addition are.
\<close>

definition monotoneSums :: "(real \<Rightarrow> real \<Rightarrow> real) \<Rightarrow> bool" where
  "monotoneSums dplus =
     ((\<forall>a b w. 0 \<le> a \<longrightarrow> a \<le> b \<longrightarrow> 0 \<le> w \<longrightarrow> dplus a w \<le> dplus b w) \<and>
      (\<forall>w. 0 \<le> w \<longrightarrow> 0 \<le> dplus 0 w) \<and>
      (\<forall>a v w. 0 \<le> w \<longrightarrow> dplus a v \<le> dplus (dplus a v) w))"

text \<open>
  Java's \<open>+\<close> on the \<open>double\<close>s that are whole numbers from 0 to \<open>2^54\<close>, for sums up to
  \<open>2^54\<close>. A \<open>double\<close> has 53 significant bits. Every whole number below \<open>2^53 =
  9007199254740992\<close> is a \<open>double\<close>, so a sum below \<open>2^53\<close> is exact. From \<open>2^53\<close> to \<open>2^54\<close> the
  \<open>double\<close>s are the even whole numbers, and the sum is rounded to the nearest of them;
  a sum half way between two of them, an odd whole number, goes to the one whose last
  significant bit is 0, the multiple of four. So \<open>1e16 + 1.0 == 1e16\<close> in Java, and
  \<open>doubleSum 10000000000000000 1 = 10000000000000000\<close>.
\<close>

definition doubleSum :: "real \<Rightarrow> real \<Rightarrow> real" where
  "doubleSum a w =
     (let s = a + w; k = \<lfloor>s / 2\<rfloor> in
      if s < 9007199254740992 then s
      else if s - 2 * of_int k < 1 \<or> (s - 2 * of_int k = 1 \<and> even k) then 2 * of_int k
      else 2 * of_int k + 2)"

section \<open>ShortestPathFinder\<close>

text \<open>
  \<open>shortestPathSolver\<close> (src/unnamed/part\_001, lines 127 to 159). The labels are cast to
  \<open>Double\<close>, so the graph's label type is the type of costs. The method adds no costs
  itself; \<open>dplus\<close> is the addition inside \<open>Path\<close>, by which \<open>getCost\<close> orders the queue.

  The fringe is a \<open>java.util.PriorityQueue\<close> ordered by \<open>Path::getCost\<close>. The queue promises
  that \<open>poll\<close> removes and returns a least element under the comparator; which one of
  several paths of equal least cost it returns depends on the heap's layout, and that on
  the order in which the \<open>HashSet\<close> of edges was iterated. The fringe is therefore a multiset,
  and \<open>polls fringe p\<close> holds for every path that \<open>poll\<close> may return.
\<close>

definition polls :: "(real \<Rightarrow> real \<Rightarrow> real) \<Rightarrow> 'e Path multiset \<Rightarrow> 'e Path \<Rightarrow> bool" where
  "polls dplus fringe p =
     (p \<in># fringe \<and> (\<forall>q \<in># fringe. getCost dplus p \<le> getCost dplus q))"

text \<open>
  The \<open>for\<close> loop over the edges out of the end of \<open>minPath\<close>: the paths it adds to the
  fringe, one for every edge whose destination is not finished. The set of edges is a
  \<open>HashSet\<close>, so each edge is visited once, in no particular order.
\<close>

definition pushed ::
  "'e Path \<Rightarrow> ('e, real) LabeledEdge fset \<Rightarrow> 'e fset \<Rightarrow> 'e Path multiset" where
  "pushed minPath edges finished =
     {#extend minPath (nodeTo edge) (label edge).
        edge \<in># filter_mset (\<lambda>edge. nodeTo edge |\<notin>| finished) (mset_set (fset edges))#}"

text \<open>
  One pass through the body of the \<open>while\<close> loop, after \<open>poll\<close> has taken \<open>minPath\<close> off the
  fringe: it either leaves the method (\<open>return\<close>, or the exception of \<open>listEdgesOut\<close>) or
  goes on with a new fringe and a new finished set. The \<open>for\<close> loop runs before \<open>minDest\<close>
  is added to \<open>finished\<close>.
\<close>

datatype 'e pass =
    Return "exn + 'e Path option"
  | Continue "'e Path multiset" "'e fset"

definition loopBody ::
  "('e, real) LabeledGraph \<Rightarrow> 'e \<Rightarrow> 'e Path multiset \<Rightarrow> 'e fset \<Rightarrow> 'e Path \<Rightarrow> 'e pass" where
  "loopBody g dest fringe finished minPath =
     (let minDest = getEnd minPath in
      if minDest = dest then Return (Inr (Some minPath))
      else if minDest |\<in>| finished then Continue (fringe - {#minPath#}) finished
      else case listEdgesOut g minDest of
        Inl x \<Rightarrow> Return (Inl x)
      | Inr edges \<Rightarrow>
          Continue (fringe - {#minPath#} + pushed minPath edges finished)
            (finsert minDest finished))"

text \<open>
  The \<open>while\<close> loop: \<open>solverLoop g dest fringe finished r\<close> holds when the loop, entered
  with this fringe and finished set, can leave the method with \<open>r\<close>: \<open>Inr None\<close> is Java's
  \<open>return null\<close>.
\<close>

inductive solverLoop ::
  "(real \<Rightarrow> real \<Rightarrow> real) \<Rightarrow> ('e, real) LabeledGraph \<Rightarrow> 'e \<Rightarrow>
     'e Path multiset \<Rightarrow> 'e fset \<Rightarrow> exn + 'e Path option \<Rightarrow> bool"
  for dplus :: "real \<Rightarrow> real \<Rightarrow> real" and g :: "('e, real) LabeledGraph" and dest :: 'e where
    exhausted: "solverLoop dplus g dest {#} finished (Inr None)"
  | leaves: "polls dplus fringe minPath \<Longrightarrow>
       loopBody g dest fringe finished minPath = Return r \<Longrightarrow>
       solverLoop dplus g dest fringe finished r"
  | again: "polls dplus fringe minPath \<Longrightarrow>
       loopBody g dest fringe finished minPath = Continue fringe' finished' \<Longrightarrow>
       solverLoop dplus g dest fringe' finished' r \<Longrightarrow>
       solverLoop dplus g dest fringe finished r"

definition shortestPathSolver ::
  "(real \<Rightarrow> real \<Rightarrow> real) \<Rightarrow> ('e, real) LabeledGraph \<Rightarrow> 'e \<Rightarrow> 'e \<Rightarrow>
     exn + 'e Path option \<Rightarrow> bool" where
  "shortestPathSolver dplus g start dest r = solverLoop dplus g dest {#Path_new start#} {||} r"

text \<open>
  One turn of the loop as a relation between its states, later state first: the relation
  whose well-foundedness says that the loop cannot run forever.
\<close>

definition loopTurn ::
  "(real \<Rightarrow> real \<Rightarrow> real) \<Rightarrow> ('e, real) LabeledGraph \<Rightarrow> 'e \<Rightarrow>
     (('e Path multiset \<times> 'e fset) \<times> ('e Path multiset \<times> 'e fset)) set" where
  "loopTurn dplus g dest =
     {((fringe', finished'), (fringe, finished)).
        \<exists>minPath. polls dplus fringe minPath \<and>
          loopBody g dest fringe finished minPath = Continue fringe' finished'}"

subsection \<open>Paths of a graph\<close>

text \<open>
  The edges out of a node are the members of the set \<open>listEdgesOut\<close> returns for it.
  \<open>follows g node segs\<close>: the segments, taken in order from \<open>node\<close>, each go along an edge of
  the graph at the edge's weight. \<open>isPath g a b p\<close>: \<open>p\<close> is a path of the graph from \<open>a\<close> to
  \<open>b\<close>.
\<close>

definition hasEdge :: "('e, real) LabeledGraph \<Rightarrow> 'e \<Rightarrow> 'e \<Rightarrow> real \<Rightarrow> bool" where
  "hasEdge g a b w =
     (case listEdgesOut g a of
        Inl x \<Rightarrow> False
      | Inr edges \<Rightarrow> fBex edges (\<lambda>edge. nodeTo edge = b \<and> label edge = w))"

fun follows :: "('e, real) LabeledGraph \<Rightarrow> 'e \<Rightarrow> 'e Segment list \<Rightarrow> bool" where
  "follows g node [] = True"
| "follows g node (s # rest) =
     (segStart s = node \<and> hasEdge g node (segEnd s) (segCost s) \<and> follows g (segEnd s) rest)"

definition isPath :: "('e, real) LabeledGraph \<Rightarrow> 'e \<Rightarrow> 'e \<Rightarrow> 'e Path \<Rightarrow> bool" where
  "isPath g a b p = (pathStart p = a \<and> getEnd p = b \<and> follows g a (pathSegments p))"

definition nonNegative :: "('e, real) LabeledGraph \<Rightarrow> bool" where
  "nonNegative g =
     (\<forall>node edgeSet edge. fmlookup (neighbors g) node = Some edgeSet \<longrightarrow>
        edge |\<in>| edgeSet \<longrightarrow> 0 \<le> label edge)"

subsection \<open>The loop invariant\<close>

text \<open>
  The end of a sequence of segments that starts at \<open>node\<close>, as \<open>getEnd\<close> computes it.
\<close>

definition endOf :: "'e \<Rightarrow> 'e Segment list \<Rightarrow> 'e" where
  "endOf node segs = (if segs = [] then node else segEnd (last segs))"

text \<open>
  What holds of the fringe and the finished set each time the loop tests its condition:
  every path of the fringe is a path of the graph from \<open>start\<close>; \<open>dest\<close> is not finished;
  while \<open>start\<close> is not finished the fringe holds a path of cost at most 0 that ends at
  it; and for every way \<open>segs\<close> of reaching a finished node and every edge from that node
  to an unfinished one, the fringe holds a path to the edge's destination that costs no
  more than \<open>segs\<close> continued along the edge. The costs are those that \<open>Path\<close> computes.
\<close>

definition fringeOK ::
  "(real \<Rightarrow> real \<Rightarrow> real) \<Rightarrow> ('e, real) LabeledGraph \<Rightarrow> 'e \<Rightarrow> 'e \<Rightarrow>
     'e Path multiset \<Rightarrow> 'e fset \<Rightarrow> bool" where
  "fringeOK dplus g start dest fringe finished =
     ((\<forall>p \<in># fringe. pathStart p = start \<and> follows g start (pathSegments p)) \<and>
      dest |\<notin>| finished \<and>
      (start |\<notin>| finished \<longrightarrow> (\<exists>r \<in># fringe. getEnd r = start \<and> getCost dplus r \<le> 0)) \<and>
      (\<forall>segs edges edge. follows g start segs \<longrightarrow> endOf start segs |\<in>| finished \<longrightarrow>
         listEdgesOut g (endOf start segs) = Inr edges \<longrightarrow> edge |\<in>| edges \<longrightarrow>
         nodeTo edge |\<notin>| finished \<longrightarrow>
         (\<exists>r \<in># fringe. getEnd r = nodeTo edge \<and>
            getCost dplus r \<le> dplus (foldl dplus 0 (map segCost segs)) (label edge))))"

text \<open>
  The quantity that decreases with every turn of the loop: the number of nodes of the
  graph that are not finished, then the size of the fringe.
\<close>

definition loopMeasure ::
  "('e, real) LabeledGraph \<Rightarrow> 'e Path multiset \<times> 'e fset \<Rightarrow> nat \<times> nat" where
  "loopMeasure g =
     (\<lambda>(fringe, finished). (fcard (fmdom (neighbors g) |-| finished), size fringe))"

section \<open>CampusMap\<close>

text \<open>
  \<open>checkRep\<close> of \<open>CampusMap\<close>: the four fields are never \<open>null\<close>; what is left is the test that
  the two indices have the same size.
\<close>

definition checkRep :: "CampusMap \<Rightarrow> exn + unit" where
  "checkRep cm =
     (if fcard (fmdom (shortNameToPoint cm)) \<noteq> fcard (fmdom (pointToBuildings cm))
      then Inl RuntimeException else Inr ())"

text \<open>
  A short name handed to \<open>CampusMap\<close> is a Java reference: \<open>None\<close> is \<open>null\<close>. No key of
  \<open>shortNameToPoint\<close> is \<open>null\<close>, so \<open>containsKey(null)\<close> is false.
\<close>

definition registered :: "CampusMap \<Rightarrow> string option \<Rightarrow> bool" where
  "registered cm name =
     (case name of None \<Rightarrow> False | Some s \<Rightarrow> s |\<in>| fmdom (shortNameToPoint cm))"

definition shortNameExists :: "CampusMap \<Rightarrow> string option \<Rightarrow> exn + bool" where
  "shortNameExists cm name =
     (case checkRep cm of
        Inl x \<Rightarrow> Inl x
      | Inr _ \<Rightarrow> Inr (registered cm name))"

definition longNameForShort :: "CampusMap \<Rightarrow> string option \<Rightarrow> exn + string" where
  "longNameForShort cm name =
     (case shortNameExists cm name of
        Inl x \<Rightarrow> Inl x
      | Inr known \<Rightarrow>
          if \<not> known then Inl IllegalArgumentException
          else case checkRep cm of
            Inl x \<Rightarrow> Inl x
          | Inr _ \<Rightarrow>
              (case Option.bind name (fmlookup (shortNameToPoint cm)) of
                 None \<Rightarrow> Inl NullPointerException
               | Some p \<Rightarrow>
                   (case fmlookup (pointToBuildings cm) p of
                      None \<Rightarrow> Inl NullPointerException
                    | Some b \<Rightarrow> Inr (longName b))))"

text \<open>
  \<open>findShortestPath\<close> (lines 122 to 137). The call of the static method
  \<open>ShortestPathFinder.shortestPathSolver\<close> is the parameter \<open>solver\<close>: a function that
  gives, for a graph and two nodes, the outcome of the solver's loop. An exception of the
  solver leaves the method before the \<open>put\<close>. The method returns its result together with
  the map as the call leaves it.
\<close>

definition findShortestPath ::
  "((Point, real) LabeledGraph \<Rightarrow> Point \<Rightarrow> Point \<Rightarrow> exn + Point Path option) \<Rightarrow>
   CampusMap \<Rightarrow> string option \<Rightarrow> string option \<Rightarrow> (exn + Point Path option) \<times> CampusMap" where
  "findShortestPath solver cm startShortName endShortName =
     (case (startShortName, endShortName) of
        (Some s, Some e) \<Rightarrow>
          (case shortNameExists cm startShortName of
             Inl x \<Rightarrow> (Inl x, cm)
           | Inr startKnown \<Rightarrow>
               if \<not> startKnown then (Inl IllegalArgumentException, cm)
               else case shortNameExists cm endShortName of
                 Inl x \<Rightarrow> (Inl x, cm)
               | Inr endKnown \<Rightarrow>
                   if \<not> endKnown then (Inl IllegalArgumentException, cm)
                   else case fmlookup (shortestPathMap cm) (s, e) of
                     Some cached \<Rightarrow> (Inr cached, cm)
                   | None \<Rightarrow>
                       (case (fmlookup (shortNameToPoint cm) s, fmlookup (shortNameToPoint cm) e) of
                          (Some start, Some dest) \<Rightarrow>
                            (case solver (graph cm) start dest of
                               Inl x \<Rightarrow> (Inl x, cm)
                             | Inr shortestPath \<Rightarrow>
                                 (let cm' = cm\<lparr>shortestPathMap :=
                                       fmupd (s, e) shortestPath (shortestPathMap cm)\<rparr>
                                  in case checkRep cm' of
                                       Inl x \<Rightarrow> (Inl x, cm')
                                     | Inr _ \<Rightarrow> (Inr shortestPath, cm')))
                        | _ \<Rightarrow> (Inl NullPointerException, cm)))
      | _ \<Rightarrow> (Inl IllegalArgumentException, cm))"

text \<open>
  The constructor (lines 48 to 71). The two lists are what \<open>CampusPathsParser\<close> returns;
  the parser and its files are outside the model.
\<close>

definition pointOf :: "CampusBuilding \<Rightarrow> Point" where
  "pointOf b = \<lparr>ptX = bldgX b, ptY = bldgY b\<rparr>"

definition addBuilding :: "CampusMap \<Rightarrow> CampusBuilding \<Rightarrow> CampusMap" where
  "addBuilding cm b =
     cm\<lparr>buildings := finsert b (buildings cm),
        pointToBuildings := fmupd (pointOf b) b (pointToBuildings cm),
        shortNameToPoint := fmupd (shortName b) (pointOf b) (shortNameToPoint cm),
        graph := snd (addNode (graph cm) (pointOf b))\<rparr>"

definition addPath :: "CampusMap \<Rightarrow> CampusPath \<Rightarrow> exn + CampusMap" where
  "addPath cm path =
     (let start = \<lparr>ptX = pathX1 path, ptY = pathY1 path\<rparr>;
          dest = \<lparr>ptX = pathX2 path, ptY = pathY2 path\<rparr>;
          g1 = snd (addNode (graph cm) start);
          g2 = snd (addNode g1 dest)
      in case addEdge g2 start dest (distance path) of
           (Inl x, g3) \<Rightarrow> Inl x
         | (Inr added, g3) \<Rightarrow> Inr (cm\<lparr>graph := g3\<rparr>))"

fun addPaths :: "CampusMap \<Rightarrow> CampusPath list \<Rightarrow> exn + CampusMap" where
  "addPaths cm [] = Inr cm"
| "addPaths cm (path # rest) =
     (case addPath cm path of Inl x \<Rightarrow> Inl x | Inr cm' \<Rightarrow> addPaths cm' rest)"

definition CampusMap_new :: "CampusBuilding list \<Rightarrow> CampusPath list \<Rightarrow> exn + CampusMap" where
  "CampusMap_new buildingList pathList =
     (let cm0 = \<lparr>graph = LabeledGraph_new, pointToBuildings = fmempty,
                 shortNameToPoint = fmempty, shortestPathMap = fmempty, buildings = {||}\<rparr>;
          cm1 = foldl addBuilding cm0 buildingList
      in case addPaths cm1 pathList of
           Inl x \<Rightarrow> Inl x
         | Inr cm2 \<Rightarrow> (case checkRep cm2 of Inl x \<Rightarrow> Inl x | Inr _ \<Rightarrow> Inr cm2))"

text \<open>
  What the constructor establishes and no method changes: \<open>checkRep\<close> passes, the graph
  satisfies its representation invariant, and the point of every registered short name
  is a node of the graph.
\<close>

definition mapOK :: "CampusMap \<Rightarrow> bool" where
  "mapOK cm =
     (checkRep cm = Inr () \<and> repOK (graph cm) \<and>
      (\<forall>name p. fmlookup (shortNameToPoint cm) name = Some p \<longrightarrow> p |\<in>| nodes (graph cm)))"

text \<open>
  The point a short name stands for, and the condition on the parameter \<open>solver\<close> of
  \<open>findShortestPath\<close>: for the points of the two names, what it returns is an outcome of
  the solver's loop on the map's graph, costs being added by \<open>dplus\<close>.
\<close>

definition pointFor :: "CampusMap \<Rightarrow> string option \<Rightarrow> Point option" where
  "pointFor cm name = Option.bind name (fmlookup (shortNameToPoint cm))"

definition solverAnswers ::
  "(real \<Rightarrow> real \<Rightarrow> real) \<Rightarrow>
   ((Point, real) LabeledGraph \<Rightarrow> Point \<Rightarrow> Point \<Rightarrow> exn + Point Path option) \<Rightarrow>
   CampusMap \<Rightarrow> string option \<Rightarrow> string option \<Rightarrow> bool" where
  "solverAnswers dplus solver cm startShortName endShortName =
     (\<forall>a b. pointFor cm startShortName = Some a \<longrightarrow> pointFor cm endShortName = Some b \<longrightarrow>
        shortestPathSolver dplus (graph cm) a b (solver (graph cm) a b))"

text \<open>What the constructor's two loops keep true of the map under construction.\<close>

definition built :: "CampusMap \<Rightarrow> bool" where
  "built cm =
     (repOK (graph cm) \<and> shortestPathMap cm = fmempty \<and>
      (\<forall>name p. fmlookup (shortNameToPoint cm) name = Some p \<longrightarrow> p |\<in>| nodes (graph cm)))"

section \<open>Example data\<close>

text \<open>
  The graph of the spec's scenarios: nodes A, B, C and the disconnected D, with edges
  A to B (10), B to C (5) and A to C (20); and the paths of that graph from A.
\<close>

definition abcGraph :: "(string, real) LabeledGraph" where
  "abcGraph =
     \<lparr>nodes = {|''A'', ''B'', ''C'', ''D''|},
      neighbors = fmap_of_list
        [(''A'', {|\<lparr>nodeFrom = ''A'', nodeTo = ''B'', label = 10\<rparr>,
                   \<lparr>nodeFrom = ''A'', nodeTo = ''C'', label = 20\<rparr>|}),
         (''B'', {|\<lparr>nodeFrom = ''B'', nodeTo = ''C'', label = 5\<rparr>|}),
         (''C'', {||}),
         (''D'', {||})]\<rparr>"

definition pathA :: "string Path" where
  "pathA = Path_new ''A''"

definition pathAB :: "string Path" where
  "pathAB = extend pathA ''B'' 10"

definition pathAC :: "string Path" where
  "pathAC = extend pathA ''C'' 20"

definition pathABC :: "string Path" where
  "pathABC = extend pathAB ''C'' 5"

text \<open>
  A graph with weights at which \<open>double\<close> addition rounds: edges A to B of weight \<open>1e16\<close>,
  B to C, C to D and D to E of weight 1 each, and A to E of weight \<open>1e16 + 2\<close>; and its
  two paths from A to E. All five weights are \<open>double\<close>s.
\<close>

definition bigGraph :: "(string, real) LabeledGraph" where
  "bigGraph =
     \<lparr>nodes = {|''A'', ''B'', ''C'', ''D'', ''E''|},
      neighbors = fmap_of_list
        [(''A'', {|\<lparr>nodeFrom = ''A'', nodeTo = ''B'', label = 10000000000000000\<rparr>,
                   \<lparr>nodeFrom = ''A'', nodeTo = ''E'', label = 10000000000000002\<rparr>|}),
         (''B'', {|\<lparr>nodeFrom = ''B'', nodeTo = ''C'', label = 1\<rparr>|}),
         (''C'', {|\<lparr>nodeFrom = ''C'', nodeTo = ''D'', label = 1\<rparr>|}),
         (''D'', {|\<lparr>nodeFrom = ''D'', nodeTo = ''E'', label = 1\<rparr>|}),
         (''E'', {||})]\<rparr>"

definition bigAB :: "string Path" where
  "bigAB = extend pathA ''B'' 10000000000000000"

definition bigAE :: "string Path" where
  "bigAE = extend pathA ''E'' 10000000000000002"

definition bigABC :: "string Path" where
  "bigABC = extend bigAB ''C'' 1"

definition bigABCD :: "string Path" where
  "bigABCD = extend bigABC ''D'' 1"

definition bigABCDE :: "string Path" where
  "bigABCDE = extend bigABCD ''E'' 1"

text \<open>A graph of two nodes, for the order of \<open>listNodes\<close>.\<close>

definition twoNodes :: "(nat, real) LabeledGraph" where
  "twoNodes = \<lparr>nodes = {|1, 2|}, neighbors = fmap_of_list [(1, {||}), (2, {||})]\<rparr>"

text \<open>
  A campus of two buildings and one path record, from the first building to the second
  with no record for the way back: the map the constructor builds from them.
\<close>

definition campusBuildings :: "CampusBuilding list" where
  "campusBuildings =
     [\<lparr>shortName = ''CSE'', longName = ''Allen Center'', bldgX = 0, bldgY = 0\<rparr>,
      \<lparr>shortName = ''KNE'', longName = ''Kane Hall'', bldgX = 3, bldgY = 4\<rparr>]"

definition campusPaths :: "CampusPath list" where
  "campusPaths = [\<lparr>pathX1 = 0, pathY1 = 0, pathX2 = 3, pathY2 = 4, distance = 5\<rparr>]"

definition campus :: CampusMap where
  "campus =
     \<lparr>graph =
        \<lparr>nodes = {|\<lparr>ptX = 3, ptY = 4\<rparr>, \<lparr>ptX = 0, ptY = 0\<rparr>|},
         neighbors =
           fmupd \<lparr>ptX = 0, ptY = 0\<rparr>
             {|\<lparr>nodeFrom = \<lparr>ptX = 0, ptY = 0\<rparr>, nodeTo = \<lparr>ptX = 3, ptY = 4\<rparr>, label = 5\<rparr>|}
             (fmupd \<lparr>ptX = 3, ptY = 4\<rparr> {||} (fmupd \<lparr>ptX = 0, ptY = 0\<rparr> {||} fmempty))\<rparr>,
      pointToBuildings =
        fmupd \<lparr>ptX = 3, ptY = 4\<rparr>
          \<lparr>shortName = ''KNE'', longName = ''Kane Hall'', bldgX = 3, bldgY = 4\<rparr>
          (fmupd \<lparr>ptX = 0, ptY = 0\<rparr>
             \<lparr>shortName = ''CSE'', longName = ''Allen Center'', bldgX = 0, bldgY = 0\<rparr> fmempty),
      shortNameToPoint =
        fmupd ''KNE'' \<lparr>ptX = 3, ptY = 4\<rparr> (fmupd ''CSE'' \<lparr>ptX = 0, ptY = 0\<rparr> fmempty),
      shortestPathMap = fmempty,
      buildings =
        {|\<lparr>shortName = ''KNE'', longName = ''Kane Hall'', bldgX = 3, bldgY = 4\<rparr>,
          \<lparr>shortName = ''CSE'', longName = ''Allen Center'', bldgX = 0, bldgY = 0\<rparr>|}\<rparr>"

text \<open>The path the solver finds from the first building to the second.\<close>

definition campusWalk :: "Point Path" where
  "campusWalk = extend (Path_new \<lparr>ptX = 0, ptY = 0\<rparr>) \<lparr>ptX = 3, ptY = 4\<rparr> 5"

text \<open>
  Three building records of which two share a short name and two share their
  coordinates, and the map the constructor builds from them: its two indices have the
  same size, so \<open>checkRep\<close> passes.
\<close>

definition sharedBuildings :: "CampusBuilding list" where
  "sharedBuildings =
     [\<lparr>shortName = ''A'', longName = ''Alpha'', bldgX = 0, bldgY = 0\<rparr>,
      \<lparr>shortName = ''A'', longName = ''Beta'', bldgX = 1, bldgY = 1\<rparr>,
      \<lparr>shortName = ''C'', longName = ''Gamma'', bldgX = 1, bldgY = 1\<rparr>]"

definition sharedCampus :: CampusMap where
  "sharedCampus =
     \<lparr>graph =
        \<lparr>nodes = {|\<lparr>ptX = 1, ptY = 1\<rparr>, \<lparr>ptX = 0, ptY = 0\<rparr>|},
         neighbors = fmupd \<lparr>ptX = 1, ptY = 1\<rparr> {||} (fmupd \<lparr>ptX = 0, ptY = 0\<rparr> {||} fmempty)\<rparr>,
      pointToBuildings =
        fmupd \<lparr>ptX = 1, ptY = 1\<rparr>
          \<lparr>shortName = ''C'', longName = ''Gamma'', bldgX = 1, bldgY = 1\<rparr>
          (fmupd \<lparr>ptX = 0, ptY = 0\<rparr>
             \<lparr>shortName = ''A'', longName = ''Alpha'', bldgX = 0, bldgY = 0\<rparr> fmempty),
      shortNameToPoint =
        fmupd ''C'' \<lparr>ptX = 1, ptY = 1\<rparr> (fmupd ''A'' \<lparr>ptX = 1, ptY = 1\<rparr> fmempty),
      shortestPathMap = fmempty,
      buildings =
        {|\<lparr>shortName = ''C'', longName = ''Gamma'', bldgX = 1, bldgY = 1\<rparr>,
          \<lparr>shortName = ''A'', longName = ''Beta'', bldgX = 1, bldgY = 1\<rparr>,
          \<lparr>shortName = ''A'', longName = ''Alpha'', bldgX = 0, bldgY = 0\<rparr>|}\<rparr>"

section \<open>Properties of LabeledGraph\<close>

lemma contains_lookup:
  "contains g node \<longleftrightarrow> (\<exists>edgeSet. fmlookup (neighbors g) node = Some edgeSet)"
  by (simp add: contains_def fmlookup_dom_iff)

lemma listEdgesOut_Inr:
  "listEdgesOut g node = Inr edges \<longleftrightarrow> fmlookup (neighbors g) node = Some edges"
  by (simp add: listEdgesOut_def split: option.splits)

lemma ffilter_finsert:
  "ffilter P (finsert x A) = (if P x then finsert x (ffilter P A) else ffilter P A)"
  by auto

lemma ffilter_fempty: "ffilter P {||} = {||}"
  by auto

lemmas abcGraph_eval =
  abcGraph_def contains_lookup listEdgesOut_def fmlookup_of_list
  ffilter_finsert ffilter_fempty fcard_finsert_if fcard_fempty

lemma repOK_abcGraph: "repOK abcGraph"
  by (auto simp: repOK_def abcGraph_def fmlookup_of_list split: if_splits)

text \<open>
  C5. \<open>addEdge\<close> throws \<open>IllegalArgumentException\<close> and leaves the graph as it is, so
  without the missing node, whenever an endpoint is not a node of the graph. When both
  endpoints are nodes, the result is \<open>true\<close> exactly when the edge \<open>(from, to, label)\<close> was
  not yet in the edge set of \<open>from\<close>; afterwards that edge set is the old one with the edge
  in it, and nothing else has changed: the same nodes, and the same edge set for every
  other node, that of \<open>to\<close> among them, so no edge from \<open>to\<close> back to \<open>from\<close> appears.
\<close>

theorem addEdge_spec:
  "(\<not> contains g from \<or> \<not> contains g to \<longrightarrow>
      addEdge g from to lbl = (Inl IllegalArgumentException, g))
   \<and> (contains g from \<and> contains g to \<longrightarrow>
        (\<exists>edgeSet. listEdgesOut g from = Inr edgeSet
           \<and> fst (addEdge g from to lbl) =
               Inr (\<lparr>nodeFrom = from, nodeTo = to, label = lbl\<rparr> |\<notin>| edgeSet)
           \<and> listEdgesOut (snd (addEdge g from to lbl)) from =
               Inr (finsert \<lparr>nodeFrom = from, nodeTo = to, label = lbl\<rparr> edgeSet)
           \<and> nodes (snd (addEdge g from to lbl)) = nodes g
           \<and> (\<forall>node. contains (snd (addEdge g from to lbl)) node = contains g node)
           \<and> (\<forall>node. node \<noteq> from \<longrightarrow>
                 listEdgesOut (snd (addEdge g from to lbl)) node = listEdgesOut g node)))"
proof (intro conjI impI)
  assume "\<not> contains g from \<or> \<not> contains g to"
  then show "addEdge g from to lbl = (Inl IllegalArgumentException, g)"
    by (auto simp: addEdge_def)
next
  assume both: "contains g from \<and> contains g to"
  then obtain edgeSet where look: "fmlookup (neighbors g) from = Some edgeSet"
    by (auto simp: contains_lookup)
  let ?e = "\<lparr>nodeFrom = from, nodeTo = to, label = lbl\<rparr>"
  let ?g' = "snd (addEdge g from to lbl)"
  have "listEdgesOut g from = Inr edgeSet"
    using look by (simp add: listEdgesOut_Inr)
  moreover have "fst (addEdge g from to lbl) = Inr (?e |\<notin>| edgeSet)"
    using both look by (simp add: addEdge_def Let_def)
  moreover have "listEdgesOut ?g' from = Inr (finsert ?e edgeSet)"
    using both look by (auto simp: addEdge_def Let_def listEdgesOut_def finsert_absorb)
  moreover have "nodes ?g' = nodes g"
    using both look by (simp add: addEdge_def Let_def)
  moreover have "\<forall>node. contains ?g' node = contains g node"
    using both look by (auto simp: addEdge_def Let_def contains_def)
  moreover have "\<forall>node. node \<noteq> from \<longrightarrow> listEdgesOut ?g' node = listEdgesOut g node"
    using both look by (simp add: addEdge_def Let_def listEdgesOut_def)
  ultimately show "\<exists>edgeSet. listEdgesOut g from = Inr edgeSet
      \<and> fst (addEdge g from to lbl) = Inr (?e |\<notin>| edgeSet)
      \<and> listEdgesOut ?g' from = Inr (finsert ?e edgeSet)
      \<and> nodes ?g' = nodes g
      \<and> (\<forall>node. contains ?g' node = contains g node)
      \<and> (\<forall>node. node \<noteq> from \<longrightarrow> listEdgesOut ?g' node = listEdgesOut g node)"
    by blast
qed

theorem addEdge_spec_witness:
  "addEdge abcGraph ''A'' ''E'' 3 = (Inl IllegalArgumentException, abcGraph)
   \<and> fst (addEdge abcGraph ''C'' ''A'' 7) = Inr True
   \<and> listEdgesOut (snd (addEdge abcGraph ''C'' ''A'' 7)) ''C'' =
       Inr {|\<lparr>nodeFrom = ''C'', nodeTo = ''A'', label = 7\<rparr>|}
   \<and> listEdgesOut (snd (addEdge abcGraph ''C'' ''A'' 7)) ''A'' = listEdgesOut abcGraph ''A''
   \<and> fst (addEdge abcGraph ''A'' ''B'' 10) = Inr False
   \<and> nodes (snd (addEdge abcGraph ''C'' ''A'' 7)) = nodes abcGraph"
proof -
  have absent: "\<not> contains abcGraph ''A'' \<or> \<not> contains abcGraph ''E''"
    by (simp add: abcGraph_eval)
  have present: "contains abcGraph ''C'' \<and> contains abcGraph ''A''"
    by (simp add: abcGraph_eval)
  have present': "contains abcGraph ''A'' \<and> contains abcGraph ''B''"
    by (simp add: abcGraph_eval)
  have c: "listEdgesOut abcGraph ''C'' = Inr {||}"
    by (simp add: abcGraph_eval)
  have a: "listEdgesOut abcGraph ''A'' =
      Inr {|\<lparr>nodeFrom = ''A'', nodeTo = ''B'', label = 10\<rparr>,
            \<lparr>nodeFrom = ''A'', nodeTo = ''C'', label = 20\<rparr>|}"
    by (simp add: abcGraph_eval)
  show ?thesis
    using addEdge_spec[of abcGraph "''A''" "''E''" 3]
      addEdge_spec[of abcGraph "''C''" "''A''" 7]
      addEdge_spec[of abcGraph "''A''" "''B''" 10] absent present present' c a
    by auto
qed

lemma LabeledGraph_new_ok:
  "repOK LabeledGraph_new" "storesOnly okNode okLabel LabeledGraph_new"
  by (simp_all add: repOK_def storesOnly_def LabeledGraph_new_def)

text \<open>
  C6. \<open>addNode\<close>, \<open>addEdge\<close> and \<open>removeEdge\<close> preserve the representation invariant: the
  node set is the key set of \<open>neighbors\<close> and every stored edge leads to a node of the
  graph. They also store nothing but their arguments: a property that holds of every node
  (\<open>okNode\<close>) and label (\<open>okLabel\<close>) passed to them still holds of every node and of every
  stored edge's endpoints and label afterwards. So no operation puts a \<open>null\<close> into the
  graph of its own: the arguments are not \<open>null\<close>, by each method's \<open>@spec.requires\<close>. The
  empty graph of the constructor satisfies both parts (\<open>LabeledGraph_new_ok\<close>).
\<close>

theorem mutators_preserve_invariant:
  assumes "repOK g" and "storesOnly okNode okLabel g"
  shows "repOK (snd (addNode g add))
       \<and> (okNode add \<longrightarrow> storesOnly okNode okLabel (snd (addNode g add)))
       \<and> repOK (snd (addEdge g from to lbl))
       \<and> (okNode from \<and> okNode to \<and> okLabel lbl \<longrightarrow>
            storesOnly okNode okLabel (snd (addEdge g from to lbl)))
       \<and> repOK (snd (removeEdge g from to lbl))
       \<and> storesOnly okNode okLabel (snd (removeEdge g from to lbl))"
proof -
  have "repOK (snd (addNode g add))"
    using assms(1) by (auto simp: repOK_def addNode_def split: if_splits)
  moreover have "okNode add \<longrightarrow> storesOnly okNode okLabel (snd (addNode g add))"
    using assms(2) by (auto simp: storesOnly_def addNode_def split: if_splits)
  moreover have "repOK (snd (addEdge g from to lbl))"
    using assms(1)
    by (auto simp: repOK_def addEdge_def contains_def Let_def split: if_splits option.splits)
  moreover have "okNode from \<and> okNode to \<and> okLabel lbl \<longrightarrow>
      storesOnly okNode okLabel (snd (addEdge g from to lbl))"
    using assms(2)
    by (auto simp: storesOnly_def addEdge_def contains_def Let_def split: if_splits option.splits)
  moreover have "repOK (snd (removeEdge g from to lbl))"
    using assms(1)
    by (auto simp: repOK_def removeEdge_def contains_def Let_def split: if_splits option.splits)
  moreover have "storesOnly okNode okLabel (snd (removeEdge g from to lbl))"
    using assms(2)
    by (auto simp: storesOnly_def removeEdge_def contains_def Let_def
        split: if_splits option.splits)
  ultimately show ?thesis by blast
qed

theorem mutators_preserve_invariant_witness:
  "repOK abcGraph
   \<and> storesOnly (\<lambda>node. node \<noteq> []) (\<lambda>w. 0 \<le> w) abcGraph
   \<and> repOK (snd (addNode abcGraph ''E''))
   \<and> storesOnly (\<lambda>node. node \<noteq> []) (\<lambda>w. 0 \<le> w) (snd (addNode abcGraph ''E''))
   \<and> repOK (snd (addEdge abcGraph ''C'' ''A'' 7))
   \<and> storesOnly (\<lambda>node. node \<noteq> []) (\<lambda>w. 0 \<le> w) (snd (addEdge abcGraph ''C'' ''A'' 7))
   \<and> repOK (snd (removeEdge abcGraph ''A'' ''B'' 10))
   \<and> storesOnly (\<lambda>node. node \<noteq> []) (\<lambda>w. 0 \<le> w) (snd (removeEdge abcGraph ''A'' ''B'' 10))"
proof -
  have s: "storesOnly (\<lambda>node. node \<noteq> []) (\<lambda>w. 0 \<le> w) abcGraph"
    by (auto simp: storesOnly_def abcGraph_def fmlookup_of_list split: if_splits)
  show ?thesis
    using mutators_preserve_invariant[OF repOK_abcGraph s,
        where add = "''E''" and ?from = "''C''" and to = "''A''" and lbl = 7]
      mutators_preserve_invariant[OF repOK_abcGraph s,
        where add = "''E''" and ?from = "''A''" and to = "''B''" and lbl = 10]
      repOK_abcGraph s
    by simp
qed

text \<open>
  C9, as the code has it. \<open>listNodes\<close> returns every node of the graph once, in ascending
  order of \<open>hashCode\<close>; nodes of equal \<open>hashCode\<close> keep the order in which the \<open>HashSet\<close>
  iterates. The order is thus a function of the hash values (together with the iteration
  order of the set), as the method's comment says: "sorts it based on hashCode of the node
  type".
\<close>

theorem listNodes_sorted_by_hashCode:
  assumes "iterates toList (nodes g)"
  shows "set (listNodes hashCode toList g) = fset (nodes g)
       \<and> distinct (listNodes hashCode toList g)
       \<and> sorted (map hashCode (listNodes hashCode toList g))
       \<and> (\<forall>k. filter (\<lambda>node. hashCode node = k) (listNodes hashCode toList g) =
               filter (\<lambda>node. hashCode node = k) (toList (nodes g)))"
  using assms by (simp add: listNodes_def iterates_def sort_key_stable)

theorem listNodes_sorted_by_hashCode_witness:
  "iterates (\<lambda>s. [1, 2]) (nodes twoNodes)
   \<and> set (listNodes (\<lambda>n. - int n) (\<lambda>s. [1, 2]) twoNodes) = fset (nodes twoNodes)
   \<and> sorted (map (\<lambda>n. - int n) (listNodes (\<lambda>n. - int n) (\<lambda>s. [1, 2]) twoNodes))"
proof -
  have it: "iterates (\<lambda>s. [1, 2]) (nodes twoNodes)"
    by (auto simp: iterates_def twoNodes_def)
  show ?thesis
    using listNodes_sorted_by_hashCode[OF it, of "\<lambda>n. - int n"] it by simp
qed

text \<open>
  The claim C9 as the spec words it, an order that does not depend on the nodes' hash
  values, fails: the same graph, iterated in the same order, is listed as 1, 2 under one
  \<open>hashCode\<close> and as 2, 1 under another; and where the hash values tie, the list is in
  whatever order the set happens to iterate.
\<close>

theorem listNodes_depends_on_hashCode:
  "listNodes (\<lambda>n. int n) (\<lambda>s. [1, 2]) twoNodes = [1, 2]
   \<and> listNodes (\<lambda>n. - int n) (\<lambda>s. [1, 2]) twoNodes = [2, 1]
   \<and> listNodes (\<lambda>n. 0) (\<lambda>s. [1, 2]) twoNodes = [1, 2]
   \<and> listNodes (\<lambda>n. 0) (\<lambda>s. [2, 1]) twoNodes = [2, 1]"
  by (simp add: listNodes_def)

lemma numEdges_present:
  assumes "contains g n1" and "contains g n2"
  shows "\<exists>edgeSet. listEdgesOut g n1 = Inr edgeSet
           \<and> numEdges ea g n1 n2 = Inr (fcard (ffilter (\<lambda>edge. nodeTo edge = n2) edgeSet))"
  using assms by (auto simp: numEdges_def contains_lookup listEdgesOut_def)

text \<open>
  C10 at the failing input. \<open>numEdges\<close> never throws \<open>IllegalArgumentException\<close>, whatever
  the graph and the nodes. In the example graph, where A is a node and E is not:
  \<open>numEdges(A, E)\<close> raises \<open>AssertionError\<close> with assertions enabled and returns 0 with
  assertions disabled; \<open>numEdges(E, A)\<close> raises \<open>AssertionError\<close> or
  \<open>NullPointerException\<close>. For two nodes of the graph it returns the number of edges from
  the first to the second (\<open>numEdges_present\<close>), one from A to B.
\<close>

theorem numEdges_never_IllegalArgument:
  "numEdges ea g n1 n2 \<noteq> Inl IllegalArgumentException
   \<and> numEdges True abcGraph ''A'' ''E'' = Inl AssertionError
   \<and> numEdges False abcGraph ''A'' ''E'' = Inr 0
   \<and> numEdges True abcGraph ''E'' ''A'' = Inl AssertionError
   \<and> numEdges False abcGraph ''E'' ''A'' = Inl NullPointerException
   \<and> numEdges ea abcGraph ''A'' ''B'' = Inr 1"
proof -
  have "numEdges ea g n1 n2 \<noteq> Inl IllegalArgumentException"
    by (simp add: numEdges_def split: option.splits)
  then show ?thesis
    by (simp add: numEdges_def abcGraph_eval)
qed

section \<open>Properties of ShortestPathFinder\<close>

subsection \<open>Addition of costs\<close>

text \<open>
  With the addition of the real numbers, which rounds nothing, \<open>getCost\<close> is the sum of the
  segment costs, and the three properties hold. They hold of \<open>doubleSum\<close> too.
\<close>

lemma foldl_add: "foldl (+) (a :: real) xs = a + sum_list xs"
  by (induction xs arbitrary: a) simp_all

lemma getCost_exact: "getCost (+) p = exactCost p"
  by (simp add: getCost_def exactCost_def foldl_add)

lemma monotoneSums_exact: "monotoneSums (+)"
  by (simp add: monotoneSums_def)

lemma foldl_no_cost: "foldl (\<lambda>a w. 0) (0 :: real) xs = 0"
  by (induction xs) simp_all

lemma doubleSum_mono:
  assumes "a + w \<le> b + v"
  shows "doubleSum a w \<le> doubleSum b v"
proof -
  define s where "s = a + w"
  define t where "t = b + v"
  define k where "k = \<lfloor>s / 2\<rfloor>"
  define l where "l = \<lfloor>t / 2\<rfloor>"
  have st: "s \<le> t" using assms by (simp add: s_def t_def)
  have k: "2 * of_int k \<le> s" "s < 2 * of_int k + 2"
    unfolding k_def by linarith+
  have l: "2 * of_int l \<le> t" "t < 2 * of_int l + 2"
    unfolding l_def by linarith+
  have kl: "k \<le> l" unfolding k_def l_def using st by (intro floor_mono) simp
  have big: "(9007199254740992 :: real) \<le> 2 * of_int l" if "\<not> t < 9007199254740992"
  proof -
    from that have "(4503599627370496 :: real) \<le> t / 2" by simp
    then have "(4503599627370496 :: int) \<le> l" unfolding l_def by (simp add: le_floor_iff)
    then show ?thesis by linarith
  qed
  have step: "2 * real_of_int k + 2 \<le> 2 * real_of_int l" if "k < l"
  proof -
    from that have "k + 1 \<le> l" by simp
    then have "real_of_int (k + 1) \<le> real_of_int l" by (simp only: of_int_le_iff)
    then show ?thesis by simp
  qed
  have ds: "doubleSum a w =
      (if s < 9007199254740992 then s
       else if s - 2 * of_int k < 1 \<or> (s - 2 * of_int k = 1 \<and> even k) then 2 * of_int k
       else 2 * of_int k + 2)"
    by (simp add: doubleSum_def Let_def s_def k_def)
  have dt: "doubleSum b v =
      (if t < 9007199254740992 then t
       else if t - 2 * of_int l < 1 \<or> (t - 2 * of_int l = 1 \<and> even l) then 2 * of_int l
       else 2 * of_int l + 2)"
    by (simp add: doubleSum_def Let_def t_def l_def)
  show ?thesis
  proof (cases "t < 9007199254740992")
    case True
    with st show ?thesis by (simp add: ds dt)
  next
    case tbig: False
    show ?thesis
    proof (cases "s < 9007199254740992")
      case True
      with tbig big show ?thesis by (auto simp: ds dt)
    next
      case sbig: False
      show ?thesis
      proof (cases "k < l")
        case True
        from step[OF this] sbig tbig show ?thesis by (auto simp: ds dt)
      next
        case False
        with kl have "k = l" by simp
        with sbig tbig st show ?thesis by (auto simp: ds dt)
      qed
    qed
  qed
qed

lemma doubleSum_fixed: "doubleSum (doubleSum a v) 0 = doubleSum a v"
proof (cases "a + v < 9007199254740992")
  case True
  then show ?thesis by (simp add: doubleSum_def Let_def)
next
  case False
  then have "(4503599627370496 :: real) \<le> (a + v) / 2" by simp
  then have "(4503599627370496 :: int) \<le> \<lfloor>(a + v) / 2\<rfloor>" by (simp add: le_floor_iff)
  then have big: "\<not> 2 * real_of_int \<lfloor>(a + v) / 2\<rfloor> < 9007199254740992"
    "\<not> 2 * real_of_int \<lfloor>(a + v) / 2\<rfloor> + 2 < 9007199254740992"
    by linarith+
  have even: "doubleSum (2 * real_of_int m) 0 = 2 * real_of_int m"
    if "\<not> 2 * real_of_int m < 9007199254740992" for m
    using that by (simp add: doubleSum_def Let_def)
  have "doubleSum a v = 2 * real_of_int \<lfloor>(a + v) / 2\<rfloor>
      \<or> doubleSum a v = 2 * real_of_int (\<lfloor>(a + v) / 2\<rfloor> + 1)"
    using False by (simp add: doubleSum_def Let_def)
  then show ?thesis
  proof
    assume "doubleSum a v = 2 * real_of_int \<lfloor>(a + v) / 2\<rfloor>"
    with even[of "\<lfloor>(a + v) / 2\<rfloor>"] big(1) show ?thesis by simp
  next
    assume *: "doubleSum a v = 2 * real_of_int (\<lfloor>(a + v) / 2\<rfloor> + 1)"
    from big(2) have "\<not> 2 * real_of_int (\<lfloor>(a + v) / 2\<rfloor> + 1) < 9007199254740992" by simp
    from even[OF this] * show ?thesis by simp
  qed
qed

lemma monotoneSums_doubleSum: "monotoneSums doubleSum"
  unfolding monotoneSums_def
proof (intro conjI allI impI)
  fix a b w :: real
  assume "a \<le> b"
  then show "doubleSum a w \<le> doubleSum b w" by (intro doubleSum_mono) simp
next
  fix w :: real
  assume "0 \<le> w"
  then have "doubleSum 0 0 \<le> doubleSum 0 w" by (intro doubleSum_mono) simp
  then show "0 \<le> doubleSum 0 w" by (simp add: doubleSum_def)
next
  fix a v w :: real
  assume "0 \<le> w"
  then have "doubleSum (doubleSum a v) 0 \<le> doubleSum (doubleSum a v) w"
    by (intro doubleSum_mono) simp
  then show "doubleSum a v \<le> doubleSum (doubleSum a v) w" by (simp add: doubleSum_fixed)
qed

lemma doubleSum_values:
  "doubleSum 0 10000000000000000 = 10000000000000000"
  "doubleSum 0 10000000000000002 = 10000000000000002"
  "doubleSum 10000000000000000 1 = 10000000000000000"
  by (simp_all add: doubleSum_def Let_def)

subsection \<open>Paths\<close>

lemma getEnd_endOf: "getEnd p = endOf (pathStart p) (pathSegments p)"
  by (simp add: getEnd_def endOf_def)

lemma follows_append:
  "follows g node (xs @ ys) \<longleftrightarrow> follows g node xs \<and> follows g (endOf node xs) ys"
  by (induction xs arbitrary: node) (auto simp: endOf_def)

lemma follows_snoc:
  "follows g node (xs @ [s]) \<longleftrightarrow>
     follows g node xs \<and> segStart s = endOf node xs \<and> hasEdge g (endOf node xs) (segEnd s) (segCost s)"
  by (auto simp: follows_append)

lemma hasEdge_iff:
  "hasEdge g a b w \<longleftrightarrow>
     (\<exists>edges edge. listEdgesOut g a = Inr edges \<and> edge |\<in>| edges \<and> nodeTo edge = b \<and> label edge = w)"
  by (auto simp: hasEdge_def split: sum.splits)

lemma hasEdge_nonneg: "nonNegative g \<Longrightarrow> hasEdge g a b w \<Longrightarrow> 0 \<le> w"
  by (auto simp: nonNegative_def hasEdge_iff listEdgesOut_Inr)

lemma extend_simps:
  "pathStart (extend p n c) = pathStart p"
  "pathSegments (extend p n c) = pathSegments p @ [\<lparr>segStart = getEnd p, segEnd = n, segCost = c\<rparr>]"
  "getEnd (extend p n c) = n"
  "getCost dplus (extend p n c) = dplus (getCost dplus p) c"
  by (simp_all add: extend_def getEnd_def getCost_def)

text \<open>
  Along a path of a graph with non-negative weights, the cost is never negative, and one
  more weight does not make it less.
\<close>

lemma cost_grows:
  assumes ms: "monotoneSums dplus" and nn: "nonNegative g"
  shows "follows g node segs \<Longrightarrow>
     0 \<le> foldl dplus 0 (map segCost segs)
     \<and> (0 \<le> w \<longrightarrow> foldl dplus 0 (map segCost segs) \<le> dplus (foldl dplus 0 (map segCost segs)) w)"
proof (induction segs arbitrary: w rule: rev_induct)
  case Nil
  from ms show ?case by (simp add: monotoneSums_def)
next
  case (snoc s segs)
  from snoc.prems have fo: "follows g node segs"
    and edge: "hasEdge g (endOf node segs) (segEnd s) (segCost s)"
    by (simp_all add: follows_snoc)
  have w: "0 \<le> segCost s" using hasEdge_nonneg[OF nn edge] .
  from snoc.IH[OF fo, of "segCost s"] w
  have "0 \<le> dplus (foldl dplus 0 (map segCost segs)) (segCost s)" by linarith
  moreover from ms have "0 \<le> w \<longrightarrow> dplus (foldl dplus 0 (map segCost segs)) (segCost s)
      \<le> dplus (dplus (foldl dplus 0 (map segCost segs)) (segCost s)) w"
    by (simp add: monotoneSums_def)
  ultimately show ?case by simp
qed

subsection \<open>The invariant is kept\<close>

lemma fringe_bound:
  assumes ms: "monotoneSums dplus" and nn: "nonNegative g"
    and ok: "fringeOK dplus g start dest fringe finished"
  shows "follows g start segs \<Longrightarrow> endOf start segs |\<notin>| finished \<Longrightarrow>
         \<exists>r \<in># fringe. getCost dplus r \<le> foldl dplus 0 (map segCost segs)"
proof (induction segs rule: rev_induct)
  case Nil
  then have "start |\<notin>| finished" by (simp add: endOf_def)
  with ok obtain r where "r \<in># fringe" "getCost dplus r \<le> 0"
    unfolding fringeOK_def by blast
  then show ?case by auto
next
  case (snoc s segs)
  from snoc.prems(1) have fo: "follows g start segs"
    and edge: "hasEdge g (endOf start segs) (segEnd s) (segCost s)"
    by (simp_all add: follows_snoc)
  from snoc.prems(2) have out: "segEnd s |\<notin>| finished" by (simp add: endOf_def)
  show ?case
  proof (cases "endOf start segs |\<in>| finished")
    case True
    from edge obtain edges e where e: "listEdgesOut g (endOf start segs) = Inr edges"
      "e |\<in>| edges" "nodeTo e = segEnd s" "label e = segCost s"
      by (auto simp: hasEdge_iff)
    from ok fo True e out obtain r where "r \<in># fringe"
      "getCost dplus r \<le> dplus (foldl dplus 0 (map segCost segs)) (label e)"
      unfolding fringeOK_def by metis
    with e show ?thesis by auto
  next
    case False
    from snoc.IH[OF fo False] obtain r where r: "r \<in># fringe"
      "getCost dplus r \<le> foldl dplus 0 (map segCost segs)" by blast
    have "0 \<le> segCost s" using hasEdge_nonneg[OF nn edge] .
    with cost_grows[OF ms nn fo, of "segCost s"]
    have "foldl dplus 0 (map segCost segs) \<le> dplus (foldl dplus 0 (map segCost segs)) (segCost s)"
      by simp
    with r show ?thesis by (intro bexI[of _ r]) auto
  qed
qed

lemma polls_least:
  assumes "monotoneSums dplus" "nonNegative g" "fringeOK dplus g start dest fringe finished"
    "polls dplus fringe p" "follows g start segs" "endOf start segs |\<notin>| finished"
  shows "getCost dplus p \<le> foldl dplus 0 (map segCost segs)"
proof -
  from fringe_bound[OF assms(1,2,3,5,6)] obtain r where "r \<in># fringe"
    "getCost dplus r \<le> foldl dplus 0 (map segCost segs)" by blast
  moreover from assms(4) \<open>r \<in># fringe\<close> have "getCost dplus p \<le> getCost dplus r"
    by (simp add: polls_def)
  ultimately show ?thesis by linarith
qed

lemma fringeOK_init: "fringeOK dplus g start dest {#Path_new start#} {||}"
  by (simp add: fringeOK_def Path_new_def getEnd_def getCost_def)

lemma in_diff_single: "r \<in># M \<Longrightarrow> r \<noteq> p \<Longrightarrow> r \<in># M - {#p#}"
  by (simp add: in_diff_count)

lemma fringeOK_skip:
  assumes ok: "fringeOK dplus g start dest fringe finished" and "getEnd p |\<in>| finished"
  shows "fringeOK dplus g start dest (fringe - {#p#}) finished"
  unfolding fringeOK_def
proof (intro conjI allI impI ballI)
  fix q assume "q \<in># fringe - {#p#}"
  then have "q \<in># fringe" by (rule in_diffD)
  with ok show "pathStart q = start" "follows g start (pathSegments q)"
    unfolding fringeOK_def by auto
next
  show "dest |\<notin>| finished" using ok unfolding fringeOK_def by simp
next
  assume "start |\<notin>| finished"
  with ok obtain r where r: "r \<in># fringe" "getEnd r = start" "getCost dplus r \<le> 0"
    unfolding fringeOK_def by blast
  with assms(2) \<open>start |\<notin>| finished\<close> have "r \<noteq> p" by auto
  with r show "\<exists>r \<in># fringe - {#p#}. getEnd r = start \<and> getCost dplus r \<le> 0"
    by (auto intro: in_diff_single)
next
  fix segs edges edge
  assume a: "follows g start segs" "endOf start segs |\<in>| finished"
    "listEdgesOut g (endOf start segs) = Inr edges" "edge |\<in>| edges" "nodeTo edge |\<notin>| finished"
  with ok obtain r where r: "r \<in># fringe" "getEnd r = nodeTo edge"
    "getCost dplus r \<le> dplus (foldl dplus 0 (map segCost segs)) (label edge)"
    unfolding fringeOK_def by metis
  with assms(2) a(5) have "r \<noteq> p" by auto
  with r show "\<exists>r \<in># fringe - {#p#}. getEnd r = nodeTo edge \<and>
      getCost dplus r \<le> dplus (foldl dplus 0 (map segCost segs)) (label edge)"
    by (auto intro: in_diff_single)
qed

lemma in_pushed:
  "q \<in># pushed p edges finished \<longleftrightarrow>
     (\<exists>edge. edge |\<in>| edges \<and> nodeTo edge |\<notin>| finished \<and> q = extend p (nodeTo edge) (label edge))"
  by (auto simp: pushed_def)

lemma fringeOK_expand:
  assumes ms: "monotoneSums dplus" and nn: "nonNegative g"
    and ok: "fringeOK dplus g start dest fringe finished"
    and p: "polls dplus fringe p" and nd: "getEnd p \<noteq> dest" and nf: "getEnd p |\<notin>| finished"
    and es: "listEdgesOut g (getEnd p) = Inr edges"
  shows "fringeOK dplus g start dest (fringe - {#p#} + pushed p edges finished)
           (finsert (getEnd p) finished)"
  unfolding fringeOK_def
proof (intro conjI allI impI ballI)
  have pin: "p \<in># fringe" using p by (simp add: polls_def)
  with ok have pv: "pathStart p = start" "follows g start (pathSegments p)"
    unfolding fringeOK_def by auto
  {
    fix q assume "q \<in># fringe - {#p#} + pushed p edges finished"
    then consider "q \<in># fringe" | "q \<in># pushed p edges finished"
      by (auto dest: in_diffD)
    then have "pathStart q = start \<and> follows g start (pathSegments q)"
    proof cases
      case 1
      with ok show ?thesis unfolding fringeOK_def by auto
    next
      case 2
      then obtain edge where e: "edge |\<in>| edges" "q = extend p (nodeTo edge) (label edge)"
        by (auto simp: in_pushed)
      with es have "hasEdge g (getEnd p) (nodeTo edge) (label edge)"
        by (auto simp: hasEdge_iff)
      with pv e show ?thesis
        by (simp add: extend_simps follows_snoc getEnd_endOf)
    qed
  }
  then show "\<And>q. q \<in># fringe - {#p#} + pushed p edges finished \<Longrightarrow> pathStart q = start"
    and "\<And>q. q \<in># fringe - {#p#} + pushed p edges finished \<Longrightarrow> follows g start (pathSegments q)"
    by blast+
next
  show "dest |\<notin>| finsert (getEnd p) finished"
    using ok nd unfolding fringeOK_def by auto
next
  assume a: "start |\<notin>| finsert (getEnd p) finished"
  with ok obtain r where r: "r \<in># fringe" "getEnd r = start" "getCost dplus r \<le> 0"
    unfolding fringeOK_def by auto
  with a have "r \<noteq> p" by auto
  with r show "\<exists>r \<in># fringe - {#p#} + pushed p edges finished.
      getEnd r = start \<and> getCost dplus r \<le> 0"
    by (auto intro: in_diff_single)
next
  fix segs edges' edge
  assume a: "follows g start segs" "endOf start segs |\<in>| finsert (getEnd p) finished"
    "listEdgesOut g (endOf start segs) = Inr edges'" "edge |\<in>| edges'"
    "nodeTo edge |\<notin>| finsert (getEnd p) finished"
  show "\<exists>r \<in># fringe - {#p#} + pushed p edges finished. getEnd r = nodeTo edge \<and>
      getCost dplus r \<le> dplus (foldl dplus 0 (map segCost segs)) (label edge)"
  proof (cases "endOf start segs |\<in>| finished")
    case True
    with ok a obtain r where r: "r \<in># fringe" "getEnd r = nodeTo edge"
      "getCost dplus r \<le> dplus (foldl dplus 0 (map segCost segs)) (label edge)"
      unfolding fringeOK_def by (metis finsertCI)
    with a(5) have "r \<noteq> p" by auto
    with r show ?thesis by (auto intro: in_diff_single)
  next
    case False
    with a(2) have at: "endOf start segs = getEnd p" by auto
    with a(3) es have "edges' = edges" by simp
    with a(4,5) have new: "extend p (nodeTo edge) (label edge) \<in># pushed p edges finished"
      by (auto simp: in_pushed)
    have le: "getCost dplus p \<le> foldl dplus 0 (map segCost segs)"
      using polls_least[OF ms nn ok p a(1)] at nf by simp
    from p have "p \<in># fringe" by (simp add: polls_def)
    with ok have "follows g start (pathSegments p)" unfolding fringeOK_def by auto
    from cost_grows[OF ms nn this, of 0] have "0 \<le> getCost dplus p"
      by (simp add: getCost_def)
    moreover have "0 \<le> label edge"
      using nn a(3,4) by (auto simp: nonNegative_def listEdgesOut_Inr)
    ultimately have "dplus (getCost dplus p) (label edge)
        \<le> dplus (foldl dplus 0 (map segCost segs)) (label edge)"
      using ms le by (simp add: monotoneSums_def)
    with new show ?thesis
      by (intro bexI[of _ "extend p (nodeTo edge) (label edge)"]) (auto simp: extend_simps)
  qed
qed

lemma loopBody_Continue:
  "loopBody g dest fringe finished p = Continue fringe' finished' \<longleftrightarrow>
     getEnd p \<noteq> dest \<and>
     (if getEnd p |\<in>| finished then fringe' = fringe - {#p#} \<and> finished' = finished
      else \<exists>edges. listEdgesOut g (getEnd p) = Inr edges \<and>
             fringe' = fringe - {#p#} + pushed p edges finished \<and>
             finished' = finsert (getEnd p) finished)"
  by (auto simp: loopBody_def Let_def split: sum.splits)

lemma loopBody_Return:
  "loopBody g dest fringe finished p = Return r \<longleftrightarrow>
     (if getEnd p = dest then r = Inr (Some p)
      else getEnd p |\<notin>| finished \<and> (\<exists>x. listEdgesOut g (getEnd p) = Inl x \<and> r = Inl x))"
  by (auto simp: loopBody_def Let_def split: sum.splits)

lemma fringeOK_step:
  assumes "monotoneSums dplus" "nonNegative g" "fringeOK dplus g start dest fringe finished"
    "polls dplus fringe p" "loopBody g dest fringe finished p = Continue fringe' finished'"
  shows "fringeOK dplus g start dest fringe' finished'"
  using assms fringeOK_skip[of dplus g start dest fringe finished p]
    fringeOK_expand[of dplus g start dest fringe finished p]
  by (auto simp: loopBody_Continue split: if_splits)

text \<open>
  The path the loop returns costs no more, as \<open>Path\<close> computes costs, than any path of the
  graph from \<open>start\<close> to \<open>dest\<close>.
\<close>

lemma solverLoop_sound:
  assumes "solverLoop dplus g dest fringe finished r" "monotoneSums dplus" "nonNegative g"
    "fringeOK dplus g start dest fringe finished"
  shows "\<forall>p. r = Inr (Some p) \<longrightarrow>
           (\<forall>q. isPath g start dest q \<longrightarrow> getCost dplus p \<le> getCost dplus q)"
  using assms
proof (induction rule: solverLoop.induct)
  case (exhausted finished)
  then show ?case by simp
next
  case (leaves fringe minPath finished r)
  show ?case
  proof (cases "getEnd minPath = dest")
    case True
    with leaves have r: "r = Inr (Some minPath)" by (simp add: loopBody_Return)
    have "getCost dplus minPath \<le> getCost dplus q" if "isPath g start dest q" for q
    proof -
      from leaves have "dest |\<notin>| finished" by (simp add: fringeOK_def)
      with that have "endOf start (pathSegments q) |\<notin>| finished" "follows g start (pathSegments q)"
        by (auto simp: isPath_def getEnd_endOf)
      from polls_least[OF leaves(3,4,5,1) this(2,1)] show ?thesis by (simp add: getCost_def)
    qed
    with r show ?thesis by simp
  next
    case False
    with leaves show ?thesis by (auto simp: loopBody_Return)
  qed
next
  case (again fringe minPath finished fringe' finished' r)
  have "fringeOK dplus g start dest fringe' finished'"
    using fringeOK_step[OF again.prems(1,2,3) again.hyps(1,2)] .
  then show ?case using again.IH again.prems(1,2) by simp
qed

text \<open>
  What the loop returns does not depend on the costs when the question is only whether
  there is a path: with the addition that gives every path the cost 0, every path of the
  fringe is one that \<open>poll\<close> may return, and the invariant says what it says without its
  bounds on the costs.
\<close>

lemma polls_any: "p \<in># fringe \<Longrightarrow> polls (\<lambda>a w. 0) fringe p"
  by (simp add: polls_def getCost_def foldl_no_cost)

lemma monotoneSums_no_cost: "monotoneSums (\<lambda>a w. 0)"
  by (simp add: monotoneSums_def)

lemma solverLoop_reach:
  assumes "solverLoop dplus g dest fringe finished r" "nonNegative g"
    "fringeOK (\<lambda>a w. 0) g start dest fringe finished"
  shows "(\<forall>p. r = Inr (Some p) \<longrightarrow> isPath g start dest p)
       \<and> (r = Inr None \<longrightarrow> (\<forall>q. \<not> isPath g start dest q))"
  using assms
proof (induction rule: solverLoop.induct)
  case (exhausted finished)
  have "\<not> isPath g start dest q" for q
  proof
    assume q: "isPath g start dest q"
    from exhausted have "dest |\<notin>| finished" by (simp add: fringeOK_def)
    with q have "endOf start (pathSegments q) |\<notin>| finished" "follows g start (pathSegments q)"
      by (auto simp: isPath_def getEnd_endOf)
    from fringe_bound[OF monotoneSums_no_cost exhausted(1,2) this(2,1)] show False by simp
  qed
  then show ?case by simp
next
  case (leaves fringe minPath finished r)
  show ?case
  proof (cases "getEnd minPath = dest")
    case True
    with leaves have r: "r = Inr (Some minPath)" by (simp add: loopBody_Return)
    from leaves have "minPath \<in># fringe" by (simp add: polls_def)
    with leaves True have "isPath g start dest minPath"
      by (auto simp: fringeOK_def isPath_def)
    with r show ?thesis by simp
  next
    case False
    with leaves show ?thesis by (auto simp: loopBody_Return)
  qed
next
  case (again fringe minPath finished fringe' finished' r)
  from again.hyps(1) have "minPath \<in># fringe" by (simp add: polls_def)
  then have "polls (\<lambda>a w. 0) fringe minPath" by (rule polls_any)
  from fringeOK_step[OF monotoneSums_no_cost again.prems(1,2) this again.hyps(2)]
  show ?case using again.IH again.prems(1) by simp
qed

subsection \<open>The loop ends\<close>

lemma ex_polls: "fringe \<noteq> {#} \<Longrightarrow> \<exists>p. polls dplus fringe p"
proof -
  assume "fringe \<noteq> {#}"
  then have ne: "set_mset fringe \<noteq> {}" by simp
  have fin: "finite (set_mset fringe)" by simp
  let ?p = "arg_min_on (getCost dplus) (set_mset fringe)"
  have "?p \<in># fringe" using arg_min_if_finite(1)[OF fin ne] .
  moreover have "\<forall>q \<in># fringe. getCost dplus ?p \<le> getCost dplus q"
    using arg_min_if_finite(2)[OF fin ne, of "getCost dplus"] by (auto simp: not_less)
  ultimately show ?thesis unfolding polls_def by blast
qed

lemma fcard_minus_finsert:
  "x |\<in>| A \<Longrightarrow> x |\<notin>| D \<Longrightarrow> fcard (A |-| finsert x D) < fcard (A |-| D)"
proof -
  assume a: "x |\<in>| A" "x |\<notin>| D"
  then have "A |-| finsert x D |\<subset>| A |-| D" by auto
  then show ?thesis by (rule pfsubset_fcard_mono)
qed

lemma loopTurn_decreases:
  "loopTurn dplus g dest \<subseteq> inv_image (less_than <*lex*> less_than) (loopMeasure g)"
proof
  fix x assume "x \<in> loopTurn dplus g dest"
  then obtain fringe' finished' fringe finished p where x: "x = ((fringe', finished'), (fringe, finished))"
    and p: "polls dplus fringe p" and b: "loopBody g dest fringe finished p = Continue fringe' finished'"
    by (auto simp: loopTurn_def)
  show "x \<in> inv_image (less_than <*lex*> less_than) (loopMeasure g)"
  proof (cases "getEnd p |\<in>| finished")
    case True
    with b have "fringe' = fringe - {#p#}" "finished' = finished"
      by (simp_all add: loopBody_Continue)
    moreover have "size (fringe - {#p#}) < size fringe"
      using p by (simp add: polls_def size_Diff1_less)
    ultimately show ?thesis by (simp add: x loopMeasure_def)
  next
    case False
    with b obtain edges where "listEdgesOut g (getEnd p) = Inr edges"
      "finished' = finsert (getEnd p) finished"
      by (auto simp: loopBody_Continue)
    then have "getEnd p |\<in>| fmdom (neighbors g)" "finished' = finsert (getEnd p) finished"
      by (auto simp: listEdgesOut_Inr intro: fmdomI)
    with False have "fcard (fmdom (neighbors g) |-| finished') < fcard (fmdom (neighbors g) |-| finished)"
      using fcard_minus_finsert[of "getEnd p" "fmdom (neighbors g)" finished] by blast
    then show ?thesis
      by (simp add: x loopMeasure_def)
  qed
qed

lemma wf_loopTurn: "wf (loopTurn dplus g dest)"
  by (rule wf_subset[OF _ loopTurn_decreases]) (intro wf_inv_image wf_lex_prod wf_less_than)

lemma solverLoop_total: "\<exists>r. solverLoop dplus g dest fringe finished r"
proof -
  have "\<exists>r. solverLoop dplus g dest (fst s) (snd s) r" for s
  proof (induction s rule: wf_induct_rule[OF wf_loopTurn[of dplus g dest]])
    case (1 s)
    obtain fringe finished where s: "s = (fringe, finished)" by (cases s)
    show ?case
    proof (cases "fringe = {#}")
      case True
      then show ?thesis using solverLoop.exhausted[of dplus g dest finished] by (auto simp: s)
    next
      case False
      then obtain p where p: "polls dplus fringe p" using ex_polls by blast
      show ?thesis
      proof (cases "loopBody g dest fringe finished p")
        case (Return r)
        from solverLoop.leaves[OF p Return] show ?thesis by (auto simp: s)
      next
        case (Continue fringe' finished')
        with p have "((fringe', finished'), s) \<in> loopTurn dplus g dest"
          by (auto simp: loopTurn_def s)
        from 1[OF this] obtain r where "solverLoop dplus g dest fringe' finished' r" by auto
        from solverLoop.again[OF p Continue this] show ?thesis by (auto simp: s)
      qed
    qed
  qed
  from this[of "(fringe, finished)"] show ?thesis by simp
qed

lemma solverLoop_no_exception:
  assumes "solverLoop dplus g dest fringe finished r" "repOK g"
    "\<forall>p \<in># fringe. getEnd p |\<in>| nodes g"
  shows "\<not> isl r"
  using assms
proof (induction rule: solverLoop.induct)
  case (exhausted finished)
  then show ?case by simp
next
  case (leaves fringe minPath finished r)
  from leaves have "getEnd minPath |\<in>| fmdom (neighbors g)"
    by (auto simp: polls_def repOK_def)
  then obtain edges where "listEdgesOut g (getEnd minPath) = Inr edges"
    by (auto simp: listEdgesOut_Inr)
  with leaves(2) show ?case by (auto simp: loopBody_Return split: if_splits)
next
  case (again fringe minPath finished fringe' finished' r)
  have "\<forall>p \<in># fringe'. getEnd p |\<in>| nodes g"
  proof
    fix q assume q: "q \<in># fringe'"
    show "getEnd q |\<in>| nodes g"
    proof (cases "getEnd minPath |\<in>| finished")
      case True
      with again.hyps(2) q have "q \<in># fringe"
        by (auto simp: loopBody_Continue dest: in_diffD)
      with again.prems show ?thesis by simp
    next
      case False
      with again.hyps(2) obtain edges where e: "listEdgesOut g (getEnd minPath) = Inr edges"
        "fringe' = fringe - {#minPath#} + pushed minPath edges finished"
        by (auto simp: loopBody_Continue)
      with q consider "q \<in># fringe" | "q \<in># pushed minPath edges finished"
        by (auto dest: in_diffD)
      then show ?thesis
      proof cases
        case 1
        with again.prems show ?thesis by simp
      next
        case 2
        then obtain edge where "edge |\<in>| edges" "q = extend minPath (nodeTo edge) (label edge)"
          by (auto simp: in_pushed)
        with e(1) again.prems(1) show ?thesis
          by (auto simp: extend_simps repOK_def listEdgesOut_Inr)
      qed
    qed
  qed
  with again show ?case by simp
qed

subsection \<open>Runs on the example graphs\<close>

lemmas abc_paths =
  pathA_def pathAB_def pathAC_def pathABC_def Path_new_def extend_def getEnd_def getCost_def

lemma nonNegative_abcGraph: "nonNegative abcGraph"
  by (auto simp: nonNegative_def abcGraph_def fmlookup_of_list split: if_splits)

lemma abc_first_turn:
  "polls (+) {#pathA#} pathA"
  "loopBody abcGraph dest {#pathA#} {||} pathA =
     (if dest = ''A'' then Return (Inr (Some pathA)) else Continue {#pathAB, pathAC#} {|''A''|})"
  by (simp_all add: polls_def loopBody_def pushed_def Let_def abcGraph_eval abc_paths)

lemma abc_second_turn:
  "polls (+) {#pathAB, pathAC#} pathAB"
  "loopBody abcGraph dest {#pathAB, pathAC#} {|''A''|} pathAB =
     (if dest = ''B'' then Return (Inr (Some pathAB))
      else Continue {#pathAC, pathABC#} {|''B'', ''A''|})"
  by (simp_all add: polls_def loopBody_def pushed_def Let_def abcGraph_eval abc_paths)

lemma abc_third_turn:
  "polls (+) {#pathAC, pathABC#} pathABC"
  "loopBody abcGraph dest {#pathAC, pathABC#} {|''B'', ''A''|} pathABC =
     (if dest = ''C'' then Return (Inr (Some pathABC))
      else Continue {#pathAC#} {|''C'', ''B'', ''A''|})"
  by (simp_all add: polls_def loopBody_def pushed_def Let_def abcGraph_eval abc_paths)

lemma abc_fourth_turn:
  "polls (+) {#pathAC#} pathAC"
  "loopBody abcGraph dest {#pathAC#} {|''C'', ''B'', ''A''|} pathAC =
     (if dest = ''C'' then Return (Inr (Some pathAC))
      else Continue {#} {|''C'', ''B'', ''A''|})"
  by (simp_all add: polls_def loopBody_def pushed_def Let_def abcGraph_eval abc_paths)

lemma abc_run_to_C: "shortestPathSolver (+) abcGraph ''A'' ''C'' (Inr (Some pathABC))"
proof -
  have "solverLoop (+) abcGraph ''C'' {#pathAC, pathABC#} {|''B'', ''A''|} (Inr (Some pathABC))"
    by (rule solverLoop.leaves[OF abc_third_turn(1)]) (simp add: abc_third_turn(2))
  then have "solverLoop (+) abcGraph ''C'' {#pathAB, pathAC#} {|''A''|} (Inr (Some pathABC))"
    by (rule solverLoop.again[OF abc_second_turn(1), rotated]) (simp add: abc_second_turn(2))
  then have "solverLoop (+) abcGraph ''C'' {#pathA#} {||} (Inr (Some pathABC))"
    by (rule solverLoop.again[OF abc_first_turn(1), rotated]) (simp add: abc_first_turn(2))
  then show ?thesis by (simp add: shortestPathSolver_def pathA_def)
qed

lemma abc_run_to_D: "shortestPathSolver (+) abcGraph ''A'' ''D'' (Inr None)"
proof -
  have "solverLoop (+) abcGraph ''D'' {#} {|''C'', ''B'', ''A''|} (Inr None)"
    by (rule solverLoop.exhausted)
  then have "solverLoop (+) abcGraph ''D'' {#pathAC#} {|''C'', ''B'', ''A''|} (Inr None)"
    by (rule solverLoop.again[OF abc_fourth_turn(1), rotated]) (simp add: abc_fourth_turn(2))
  then have "solverLoop (+) abcGraph ''D'' {#pathAC, pathABC#} {|''B'', ''A''|} (Inr None)"
    by (rule solverLoop.again[OF abc_third_turn(1), rotated]) (simp add: abc_third_turn(2))
  then have "solverLoop (+) abcGraph ''D'' {#pathAB, pathAC#} {|''A''|} (Inr None)"
    by (rule solverLoop.again[OF abc_second_turn(1), rotated]) (simp add: abc_second_turn(2))
  then have "solverLoop (+) abcGraph ''D'' {#pathA#} {||} (Inr None)"
    by (rule solverLoop.again[OF abc_first_turn(1), rotated]) (simp add: abc_first_turn(2))
  then show ?thesis by (simp add: shortestPathSolver_def pathA_def)
qed

lemma abc_isPath:
  "isPath abcGraph ''A'' ''C'' pathABC" "isPath abcGraph ''A'' ''C'' pathAC"
  by (simp_all add: isPath_def hasEdge_def abcGraph_eval abc_paths)

lemmas bigGraph_eval =
  bigGraph_def contains_lookup listEdgesOut_def fmlookup_of_list
  ffilter_finsert ffilter_fempty fcard_finsert_if fcard_fempty

lemmas big_paths =
  pathA_def bigAB_def bigAE_def bigABC_def bigABCD_def bigABCDE_def
  Path_new_def extend_def getEnd_def

lemma nonNegative_bigGraph: "nonNegative bigGraph"
  by (auto simp: nonNegative_def bigGraph_def fmlookup_of_list split: if_splits)

lemma big_costs:
  "getCost doubleSum pathA = 0"
  "getCost doubleSum bigAB = 10000000000000000"
  "getCost doubleSum bigAE = 10000000000000002"
  "getCost doubleSum bigABC = 10000000000000000"
  "getCost doubleSum bigABCD = 10000000000000000"
  "getCost doubleSum bigABCDE = 10000000000000000"
  by (simp_all add: getCost_def big_paths doubleSum_values)

lemma big_exact_costs:
  "exactCost bigAE = 10000000000000002"
  "exactCost bigABCDE = 10000000000000003"
  by (simp_all add: exactCost_def big_paths)

lemma big_first_turn:
  "polls doubleSum {#pathA#} pathA"
  "loopBody bigGraph ''E'' {#pathA#} {||} pathA = Continue {#bigAB, bigAE#} {|''A''|}"
  by (simp_all add: polls_def loopBody_def pushed_def Let_def bigGraph_eval big_paths)

lemma big_second_turn:
  "polls doubleSum {#bigAB, bigAE#} bigAB"
  "loopBody bigGraph ''E'' {#bigAB, bigAE#} {|''A''|} bigAB =
     Continue {#bigAE, bigABC#} {|''B'', ''A''|}"
proof -
  show "polls doubleSum {#bigAB, bigAE#} bigAB" by (simp add: polls_def big_costs)
  show "loopBody bigGraph ''E'' {#bigAB, bigAE#} {|''A''|} bigAB =
     Continue {#bigAE, bigABC#} {|''B'', ''A''|}"
    by (simp add: loopBody_def pushed_def Let_def bigGraph_eval big_paths)
qed

lemma big_third_turn:
  "polls doubleSum {#bigAE, bigABC#} bigABC"
  "loopBody bigGraph ''E'' {#bigAE, bigABC#} {|''B'', ''A''|} bigABC =
     Continue {#bigAE, bigABCD#} {|''C'', ''B'', ''A''|}"
proof -
  show "polls doubleSum {#bigAE, bigABC#} bigABC" by (simp add: polls_def big_costs)
  show "loopBody bigGraph ''E'' {#bigAE, bigABC#} {|''B'', ''A''|} bigABC =
     Continue {#bigAE, bigABCD#} {|''C'', ''B'', ''A''|}"
    by (simp add: loopBody_def pushed_def Let_def bigGraph_eval big_paths)
qed

lemma big_fourth_turn:
  "polls doubleSum {#bigAE, bigABCD#} bigABCD"
  "loopBody bigGraph ''E'' {#bigAE, bigABCD#} {|''C'', ''B'', ''A''|} bigABCD =
     Continue {#bigAE, bigABCDE#} {|''D'', ''C'', ''B'', ''A''|}"
proof -
  show "polls doubleSum {#bigAE, bigABCD#} bigABCD" by (simp add: polls_def big_costs)
  show "loopBody bigGraph ''E'' {#bigAE, bigABCD#} {|''C'', ''B'', ''A''|} bigABCD =
     Continue {#bigAE, bigABCDE#} {|''D'', ''C'', ''B'', ''A''|}"
    by (simp add: loopBody_def pushed_def Let_def bigGraph_eval big_paths)
qed

lemma big_fifth_turn:
  "polls doubleSum {#bigAE, bigABCDE#} bigABCDE"
  "loopBody bigGraph ''E'' {#bigAE, bigABCDE#} {|''D'', ''C'', ''B'', ''A''|} bigABCDE =
     Return (Inr (Some bigABCDE))"
proof -
  show "polls doubleSum {#bigAE, bigABCDE#} bigABCDE" by (simp add: polls_def big_costs)
  show "loopBody bigGraph ''E'' {#bigAE, bigABCDE#} {|''D'', ''C'', ''B'', ''A''|} bigABCDE =
     Return (Inr (Some bigABCDE))"
    by (simp add: loopBody_def big_paths)
qed

lemma big_run: "shortestPathSolver doubleSum bigGraph ''A'' ''E'' (Inr (Some bigABCDE))"
proof -
  have "solverLoop doubleSum bigGraph ''E'' {#bigAE, bigABCDE#} {|''D'', ''C'', ''B'', ''A''|}
      (Inr (Some bigABCDE))"
    by (rule solverLoop.leaves[OF big_fifth_turn])
  then have "solverLoop doubleSum bigGraph ''E'' {#bigAE, bigABCD#} {|''C'', ''B'', ''A''|}
      (Inr (Some bigABCDE))"
    by (rule solverLoop.again[OF big_fourth_turn])
  then have "solverLoop doubleSum bigGraph ''E'' {#bigAE, bigABC#} {|''B'', ''A''|}
      (Inr (Some bigABCDE))"
    by (rule solverLoop.again[OF big_third_turn])
  then have "solverLoop doubleSum bigGraph ''E'' {#bigAB, bigAE#} {|''A''|} (Inr (Some bigABCDE))"
    by (rule solverLoop.again[OF big_second_turn])
  then have "solverLoop doubleSum bigGraph ''E'' {#pathA#} {||} (Inr (Some bigABCDE))"
    by (rule solverLoop.again[OF big_first_turn])
  then show ?thesis by (simp add: shortestPathSolver_def pathA_def)
qed

lemma big_isPath:
  "isPath bigGraph ''A'' ''E'' bigABCDE" "isPath bigGraph ''A'' ''E'' bigAE"
  by (simp_all add: isPath_def hasEdge_def bigGraph_eval big_paths)

subsection \<open>The claims about the solver\<close>

text \<open>
  C1, as the code has it. Let all edge weights of the graph be non-negative, and let the
  addition of costs have the three properties above, as Java's \<open>+\<close> on \<open>double\<close>s has. If
  \<open>shortestPathSolver\<close> returns a path, whichever least-cost path \<open>poll\<close> picked at each
  turn, then that path is a path of the graph from \<open>start\<close> to \<open>dest\<close>, and its cost, as
  \<open>getCost\<close> gives it, is the least of the costs that \<open>getCost\<close> gives for the paths of the
  graph from \<open>start\<close> to \<open>dest\<close>. (Nothing is needed of \<open>start\<close> and \<open>dest\<close>: when \<open>start\<close> is
  not a node, the solver returns a path only if \<open>dest\<close> is \<open>start\<close>.)
\<close>

theorem shortestPathSolver_minimal:
  assumes "monotoneSums dplus" and "nonNegative g"
    and "shortestPathSolver dplus g start dest (Inr (Some p))"
  shows "isPath g start dest p
       \<and> (\<forall>q. isPath g start dest q \<longrightarrow> getCost dplus p \<le> getCost dplus q)"
  using solverLoop_sound[OF assms(3)[unfolded shortestPathSolver_def] assms(1,2) fringeOK_init]
    solverLoop_reach[OF assms(3)[unfolded shortestPathSolver_def] assms(2) fringeOK_init]
  by simp

theorem shortestPathSolver_minimal_witness:
  "monotoneSums doubleSum
   \<and> nonNegative bigGraph
   \<and> shortestPathSolver doubleSum bigGraph ''A'' ''E'' (Inr (Some bigABCDE))
   \<and> isPath bigGraph ''A'' ''E'' bigABCDE
   \<and> isPath bigGraph ''A'' ''E'' bigAE
   \<and> getCost doubleSum bigABCDE = 10000000000000000
   \<and> getCost doubleSum bigABCDE \<le> getCost doubleSum bigAE"
  using shortestPathSolver_minimal[OF monotoneSums_doubleSum nonNegative_bigGraph big_run]
    monotoneSums_doubleSum nonNegative_bigGraph big_run big_isPath(2) big_costs(6)
  by blast

text \<open>
  The claim C1 as the spec words it, with the cost of a path the sum of its segment costs
  and the weights real distances, fails. In the graph above every weight is a
  non-negative \<open>double\<close> and A and E are nodes. The solver, adding as Java adds, returns the
  path from A through B, C and D to E: each of its three additions of 1 to \<open>1e16\<close> gives
  \<open>1e16\<close> again, so the queue holds that path at the cost \<open>1e16\<close>, below the \<open>1e16 + 2\<close> of
  the edge from A to E. The weights of the returned path sum to \<open>1e16 + 3\<close>: more than the
  path along the single edge from A to E costs.
\<close>

theorem shortestPathSolver_not_exact_minimum:
  "nonNegative bigGraph
   \<and> contains bigGraph ''A'' \<and> contains bigGraph ''E''
   \<and> shortestPathSolver doubleSum bigGraph ''A'' ''E'' (Inr (Some bigABCDE))
   \<and> getCost doubleSum bigABCDE = 10000000000000000
   \<and> exactCost bigABCDE = 10000000000000003
   \<and> isPath bigGraph ''A'' ''E'' bigAE
   \<and> exactCost bigAE = 10000000000000002
   \<and> exactCost bigAE < exactCost bigABCDE"
proof -
  have "contains bigGraph ''A''" "contains bigGraph ''E''"
    by (simp_all add: bigGraph_eval)
  then show ?thesis
    using nonNegative_bigGraph big_run big_costs(6) big_exact_costs big_isPath(2) by simp
qed

text \<open>
  C2. Let the graph satisfy its representation invariant and have non-negative weights,
  and let \<open>start\<close> and \<open>dest\<close> be nodes of it. Then, however costs are added, the loop cannot
  run forever and the solver has an outcome; no outcome is an exception; and an outcome
  is \<open>null\<close> exactly when the graph has no path from \<open>start\<close> to \<open>dest\<close>. The "no path"
  outcome is the value \<open>Inr None\<close>, a result and not the \<open>IllegalArgumentException\<close> of an
  invalid argument.
\<close>

theorem shortestPathSolver_null_iff_no_path:
  assumes "repOK g" and "nonNegative g" and "contains g start" and "contains g dest"
  shows "wf (loopTurn dplus g dest)
       \<and> (\<exists>r. shortestPathSolver dplus g start dest r)
       \<and> (\<forall>r. shortestPathSolver dplus g start dest r \<longrightarrow>
             \<not> isl r \<and> (r = Inr None \<longleftrightarrow> \<not> (\<exists>q. isPath g start dest q)))"
proof (intro conjI allI impI)
  show "wf (loopTurn dplus g dest)" by (rule wf_loopTurn)
  show "\<exists>r. shortestPathSolver dplus g start dest r"
    unfolding shortestPathSolver_def by (rule solverLoop_total)
next
  fix r assume run: "shortestPathSolver dplus g start dest r"
  then have loop: "solverLoop dplus g dest {#Path_new start#} {||} r"
    by (simp add: shortestPathSolver_def)
  have "start |\<in>| nodes g" using assms(1,3) by (simp add: repOK_def contains_def)
  then have "\<forall>p \<in># {#Path_new start#}. getEnd p |\<in>| nodes g"
    by (simp add: Path_new_def getEnd_def)
  from solverLoop_no_exception[OF loop assms(1) this] show noexn: "\<not> isl r" .
  note sound = solverLoop_reach[OF loop assms(2) fringeOK_init]
  show "r = Inr None \<longleftrightarrow> \<not> (\<exists>q. isPath g start dest q)"
  proof
    assume "r = Inr None"
    with sound show "\<not> (\<exists>q. isPath g start dest q)" by simp
  next
    assume none: "\<not> (\<exists>q. isPath g start dest q)"
    from noexn obtain v where r: "r = Inr v" by (cases r) auto
    show "r = Inr None"
    proof (cases v)
      case None
      with r show ?thesis by simp
    next
      case (Some p)
      with r sound have "isPath g start dest p" by simp
      with none show ?thesis by blast
    qed
  qed
qed

theorem shortestPathSolver_null_iff_no_path_witness:
  "repOK abcGraph \<and> nonNegative abcGraph
   \<and> contains abcGraph ''A'' \<and> contains abcGraph ''D'' \<and> contains abcGraph ''C''
   \<and> shortestPathSolver (+) abcGraph ''A'' ''D'' (Inr None)
   \<and> \<not> (\<exists>q. isPath abcGraph ''A'' ''D'' q)
   \<and> \<not> shortestPathSolver (+) abcGraph ''A'' ''C'' (Inr None)"
proof -
  have c: "contains abcGraph ''A''" "contains abcGraph ''D''" "contains abcGraph ''C''"
    by (simp_all add: abcGraph_eval)
  have "\<not> (\<exists>q. isPath abcGraph ''A'' ''D'' q)"
    using shortestPathSolver_null_iff_no_path[OF repOK_abcGraph nonNegative_abcGraph c(1,2),
        where dplus = "(+)"]
      abc_run_to_D
    by blast
  moreover have "\<not> shortestPathSolver (+) abcGraph ''A'' ''C'' (Inr None)"
    using shortestPathSolver_null_iff_no_path[OF repOK_abcGraph nonNegative_abcGraph c(1,3),
        where dplus = "(+)"]
      abc_isPath(1)
    by blast
  ultimately show ?thesis
    using repOK_abcGraph nonNegative_abcGraph c abc_run_to_D by simp
qed

section \<open>Properties of CampusMap\<close>

lemma campus_built: "CampusMap_new campusBuildings campusPaths = Inr campus"
  by (simp add: CampusMap_new_def campusBuildings_def campusPaths_def campus_def addBuilding_def
      addPath_def addNode_def addEdge_def contains_def pointOf_def LabeledGraph_new_def checkRep_def
      Let_def fcard_finsert_if fcard_fempty)

lemma addNode_nodes: "nodes (snd (addNode g n)) = finsert n (nodes g)"
  by (auto simp: addNode_def)

lemma addNode_repOK: "repOK g \<Longrightarrow> repOK (snd (addNode g n))"
  by (auto simp: repOK_def addNode_def split: if_splits)

lemma addEdge_nodes: "nodes (snd (addEdge g a b w)) = nodes g"
  by (simp add: addEdge_def Let_def split: option.splits)

lemma addEdge_repOK: "repOK g \<Longrightarrow> repOK (snd (addEdge g a b w))"
  by (auto simp: repOK_def addEdge_def contains_def Let_def split: if_splits option.splits)

lemma addBuilding_built: "built cm \<Longrightarrow> built (addBuilding cm b)"
  by (auto simp: built_def addBuilding_def addNode_nodes addNode_repOK)

lemma foldl_addBuilding_built: "built cm \<Longrightarrow> built (foldl addBuilding cm bs)"
  by (induction bs arbitrary: cm) (simp_all add: addBuilding_built)

lemma addPath_built:
  assumes "built cm" "addPath cm path = Inr cm'"
  shows "built cm' \<and> shortNameToPoint cm' = shortNameToPoint cm
       \<and> pointToBuildings cm' = pointToBuildings cm"
proof -
  let ?start = "\<lparr>ptX = pathX1 path, ptY = pathY1 path\<rparr>"
  let ?dest = "\<lparr>ptX = pathX2 path, ptY = pathY2 path\<rparr>"
  let ?g2 = "snd (addNode (snd (addNode (graph cm) ?start)) ?dest)"
  let ?g3 = "snd (addEdge ?g2 ?start ?dest (distance path))"
  from assms(2) have cm': "cm' = cm\<lparr>graph := ?g3\<rparr>"
    by (auto simp: addPath_def Let_def split: prod.splits sum.splits)
  have "repOK ?g3" using assms(1) by (simp add: built_def addNode_repOK addEdge_repOK)
  moreover have "nodes ?g3 = finsert ?dest (finsert ?start (nodes (graph cm)))"
    by (simp add: addEdge_nodes addNode_nodes)
  ultimately show ?thesis using assms(1) by (auto simp: built_def cm')
qed

lemma addPaths_built:
  "built cm \<Longrightarrow> addPaths cm paths = Inr cm' \<Longrightarrow>
     built cm' \<and> shortNameToPoint cm' = shortNameToPoint cm
       \<and> pointToBuildings cm' = pointToBuildings cm"
proof (induction paths arbitrary: cm)
  case Nil
  then show ?case by simp
next
  case (Cons path rest)
  from Cons.prems(2) obtain cm1 where 1: "addPath cm path = Inr cm1" "addPaths cm1 rest = Inr cm'"
    by (auto split: sum.splits)
  from addPath_built[OF Cons.prems(1) 1(1)] Cons.IH[OF _ 1(2)] show ?case by simp
qed

lemma CampusMap_new_mapOK:
  assumes "CampusMap_new buildingList pathList = Inr cm"
  shows "mapOK cm \<and> shortestPathMap cm = fmempty"
proof -
  let ?cm0 = "\<lparr>graph = LabeledGraph_new, pointToBuildings = fmempty,
                shortNameToPoint = fmempty, shortestPathMap = fmempty, buildings = {||}\<rparr>"
  let ?cm1 = "foldl addBuilding ?cm0 buildingList"
  from assms have 2: "addPaths ?cm1 pathList = Inr cm" and rep: "checkRep cm = Inr ()"
    by (auto simp: CampusMap_new_def Let_def split: sum.splits)
  have "built ?cm0" by (simp add: built_def LabeledGraph_new_ok(1))
  then have "built ?cm1" by (rule foldl_addBuilding_built)
  from addPaths_built[OF this 2] rep show ?thesis by (simp add: built_def mapOK_def)
qed

lemma foldl_addBuilding_lookup:
  assumes "distinct (map shortName bs)" "distinct (map pointOf bs)" "b \<in> set bs"
  shows "fmlookup (shortNameToPoint (foldl addBuilding cm bs)) (shortName b) = Some (pointOf b)
       \<and> fmlookup (pointToBuildings (foldl addBuilding cm bs)) (pointOf b) = Some b"
  using assms
proof (induction bs rule: rev_induct)
  case Nil
  then show ?case by simp
next
  case (snoc x bs)
  show ?case
  proof (cases "b = x")
    case True
    then show ?thesis by (simp add: addBuilding_def)
  next
    case False
    with snoc.prems have in_bs: "b \<in> set bs" by simp
    with snoc.prems have "shortName b \<noteq> shortName x" "pointOf b \<noteq> pointOf x"
      by (auto simp: image_iff)
    with snoc.IH snoc.prems in_bs show ?thesis by (simp add: addBuilding_def)
  qed
qed

lemma CampusMap_new_lookup:
  assumes "CampusMap_new buildingList pathList = Inr cm"
    "distinct (map shortName buildingList)" "distinct (map pointOf buildingList)"
    "b \<in> set buildingList"
  shows "fmlookup (shortNameToPoint cm) (shortName b) = Some (pointOf b)
       \<and> fmlookup (pointToBuildings cm) (pointOf b) = Some b"
proof -
  let ?cm0 = "\<lparr>graph = LabeledGraph_new, pointToBuildings = fmempty,
                shortNameToPoint = fmempty, shortestPathMap = fmempty, buildings = {||}\<rparr>"
  let ?cm1 = "foldl addBuilding ?cm0 buildingList"
  from assms(1) have 2: "addPaths ?cm1 pathList = Inr cm"
    by (auto simp: CampusMap_new_def Let_def split: sum.splits)
  have "built ?cm0" by (simp add: built_def LabeledGraph_new_ok(1))
  then have "built ?cm1" by (rule foldl_addBuilding_built)
  from addPaths_built[OF this 2] foldl_addBuilding_lookup[OF assms(2,3,4), of ?cm0]
  show ?thesis by simp
qed

lemma shortNameExists_ok:
  "checkRep cm = Inr () \<Longrightarrow> shortNameExists cm name = Inr (registered cm name)"
  by (simp add: shortNameExists_def)

lemma checkRep_cache [simp]:
  "checkRep (cm\<lparr>shortestPathMap := m\<rparr>) = checkRep cm"
  by (simp add: checkRep_def)

lemma registered_Some:
  "registered cm (Some s) \<longleftrightarrow> (\<exists>p. fmlookup (shortNameToPoint cm) s = Some p)"
  by (simp add: registered_def fmlookup_dom_iff)

lemma registered_None [simp]: "\<not> registered cm None"
  by (simp add: registered_def)

text \<open>The three ways a call with two registered names can go.\<close>

lemma findShortestPath_registered:
  assumes "checkRep cm = Inr ()" "fmlookup (shortNameToPoint cm) s = Some a"
    "fmlookup (shortNameToPoint cm) e = Some b"
  shows "findShortestPath solver cm (Some s) (Some e) =
     (case fmlookup (shortestPathMap cm) (s, e) of
        Some cached \<Rightarrow> (Inr cached, cm)
      | None \<Rightarrow>
          (case solver (graph cm) a b of
             Inl x \<Rightarrow> (Inl x, cm)
           | Inr shortestPath \<Rightarrow>
               (Inr shortestPath,
                cm\<lparr>shortestPathMap := fmupd (s, e) shortestPath (shortestPathMap cm)\<rparr>)))"
  using assms
  by (simp add: findShortestPath_def shortNameExists_ok registered_Some Let_def
      split: option.splits sum.splits)

lemma findShortestPath_unregistered:
  assumes "checkRep cm = Inr ()" "\<not> (registered cm s \<and> registered cm e)"
  shows "findShortestPath solver cm s e = (Inl IllegalArgumentException, cm)"
  using assms
  by (auto simp: findShortestPath_def shortNameExists_ok split: option.splits)

lemma shared_built: "CampusMap_new sharedBuildings [] = Inr sharedCampus"
  by (simp add: CampusMap_new_def sharedBuildings_def sharedCampus_def addBuilding_def
      addNode_def pointOf_def LabeledGraph_new_def checkRep_def
      Let_def fcard_finsert_if fcard_fempty)

lemma foldl_addBuilding_names:
  "fmdom (shortNameToPoint (foldl addBuilding cm bs)) =
     fmdom (shortNameToPoint cm) |\<union>| fset_of_list (map shortName bs)"
  by (induction bs arbitrary: cm) (auto simp: addBuilding_def)

lemma CampusMap_new_registered:
  assumes "CampusMap_new buildingList pathList = Inr cm"
  shows "registered cm name \<longleftrightarrow> (\<exists>b \<in> set buildingList. name = Some (shortName b))"
proof -
  let ?cm0 = "\<lparr>graph = LabeledGraph_new, pointToBuildings = fmempty,
                shortNameToPoint = fmempty, shortestPathMap = fmempty, buildings = {||}\<rparr>"
  let ?cm1 = "foldl addBuilding ?cm0 buildingList"
  from assms have 2: "addPaths ?cm1 pathList = Inr cm"
    by (auto simp: CampusMap_new_def Let_def split: sum.splits)
  have "built ?cm0" by (simp add: built_def LabeledGraph_new_ok(1))
  then have "built ?cm1" by (rule foldl_addBuilding_built)
  from addPaths_built[OF this 2] have "shortNameToPoint cm = shortNameToPoint ?cm1" by simp
  then show ?thesis
    by (cases name) (auto simp: registered_def foldl_addBuilding_names fset_of_list.rep_eq)
qed

lemma longNameForShort_unregistered:
  "checkRep cm = Inr () \<Longrightarrow> \<not> registered cm name \<Longrightarrow>
     longNameForShort cm name = Inl IllegalArgumentException"
  by (simp add: longNameForShort_def shortNameExists_ok)

lemma longNameForShort_registered:
  "checkRep cm = Inr () \<Longrightarrow> fmlookup (shortNameToPoint cm) s = Some p \<Longrightarrow>
     fmlookup (pointToBuildings cm) p = Some b \<Longrightarrow>
     longNameForShort cm (Some s) = Inr (longName b)"
  by (simp add: longNameForShort_def shortNameExists_ok registered_Some)

text \<open>
  C8, as the code has it. Let the map be built by the constructor from a list of building
  records. For every name that is not the short name of one of the buildings, \<open>null\<close>
  included, \<open>longNameForShort\<close> throws \<open>IllegalArgumentException\<close>, the same exception
  \<open>findShortestPath\<close> throws for such a name. When the records have pairwise distinct short
  names and pairwise distinct coordinates, it returns for every building's short name
  that building's long name.
\<close>

theorem longNameForShort_spec:
  assumes "CampusMap_new buildingList pathList = Inr cm"
  shows "((\<forall>b \<in> set buildingList. name \<noteq> Some (shortName b)) \<longrightarrow>
            longNameForShort cm name = Inl IllegalArgumentException)
       \<and> (distinct (map shortName buildingList) \<and> distinct (map pointOf buildingList) \<longrightarrow>
            (\<forall>b \<in> set buildingList. longNameForShort cm (Some (shortName b)) = Inr (longName b)))"
proof (intro conjI impI ballI)
  from CampusMap_new_mapOK[OF assms] have rep: "checkRep cm = Inr ()" by (simp add: mapOK_def)
  {
    assume "\<forall>b \<in> set buildingList. name \<noteq> Some (shortName b)"
    then have "\<not> registered cm name" by (simp add: CampusMap_new_registered[OF assms])
    then show "longNameForShort cm name = Inl IllegalArgumentException"
      by (rule longNameForShort_unregistered[OF rep])
  }
  {
    fix b assume d: "distinct (map shortName buildingList) \<and> distinct (map pointOf buildingList)"
      and b: "b \<in> set buildingList"
    from CampusMap_new_lookup[OF assms _ _ b] d
    show "longNameForShort cm (Some (shortName b)) = Inr (longName b)"
      by (auto intro: longNameForShort_registered[OF rep])
  }
qed

lemma campus_eval:
  "checkRep campus = Inr ()"
  "fmlookup (shortNameToPoint campus) ''CSE'' = Some \<lparr>ptX = 0, ptY = 0\<rparr>"
  "fmlookup (shortNameToPoint campus) ''KNE'' = Some \<lparr>ptX = 3, ptY = 4\<rparr>"
  "fmlookup (shortNameToPoint campus) ''XYZ'' = None"
  "shortestPathMap campus = fmempty"
  "fmlookup (shortNameToPoint campus) [] = None"
  by (simp_all add: campus_def checkRep_def fcard_finsert_if fcard_fempty)

theorem longNameForShort_spec_witness:
  "CampusMap_new campusBuildings campusPaths = Inr campus
   \<and> longNameForShort campus (Some ''XYZ'') = Inl IllegalArgumentException
   \<and> longNameForShort campus None = Inl IllegalArgumentException
   \<and> longNameForShort campus (Some ''KNE'') = Inr ''Kane Hall''"
proof -
  have d: "distinct (map shortName campusBuildings) \<and> distinct (map pointOf campusBuildings)"
    by (simp add: campusBuildings_def pointOf_def)
  show ?thesis
    using longNameForShort_spec[OF campus_built, of "Some ''XYZ''"]
      longNameForShort_spec[OF campus_built, of None] d campus_built
    by (simp add: campusBuildings_def)
qed

text \<open>
  The claim C8 as the spec words it, a failure \<open>NotFound\<close> that is not the failure of an
  invalid argument, fails: for the unregistered name XYZ, \<open>longNameForShort\<close> throws the
  very exception that \<open>findShortestPath\<close> throws for it. And a registered name need not
  yield its own building's long name when records share names and coordinates: built
  from the three records above, the map answers "Gamma" for the short name A.
\<close>

theorem longNameForShort_throws_IllegalArgument:
  "longNameForShort campus (Some ''XYZ'') = Inl IllegalArgumentException
   \<and> fst (findShortestPath (\<lambda>g a b. Inr None) campus (Some ''XYZ'') (Some ''CSE'')) =
       Inl IllegalArgumentException
   \<and> CampusMap_new sharedBuildings [] = Inr sharedCampus
   \<and> longNameForShort sharedCampus (Some ''A'') = Inr ''Gamma''"
proof -
  have "\<not> registered campus (Some ''XYZ'')"
    by (simp add: registered_Some campus_eval)
  then have "longNameForShort campus (Some ''XYZ'') = Inl IllegalArgumentException"
    "fst (findShortestPath (\<lambda>g a b. Inr None) campus (Some ''XYZ'') (Some ''CSE'')) =
       Inl IllegalArgumentException"
    by (simp_all add: longNameForShort_unregistered findShortestPath_unregistered campus_eval)
  moreover have "longNameForShort sharedCampus (Some ''A'') = Inr ''Gamma''"
    by (simp add: longNameForShort_def shortNameExists_def registered_def sharedCampus_def
        checkRep_def fcard_finsert_if fcard_fempty)
  ultimately show ?thesis using shared_built by simp
qed

lemma pointFor_Some [simp]: "pointFor cm (Some s) = fmlookup (shortNameToPoint cm) s"
  by (simp add: pointFor_def)

lemma solver_no_exception:
  assumes "mapOK cm" "fmlookup (shortNameToPoint cm) s = Some a"
    "shortestPathSolver dplus (graph cm) a b r"
  shows "\<not> isl r"
proof -
  from assms(1,2) have "a |\<in>| nodes (graph cm)" "repOK (graph cm)"
    by (auto simp: mapOK_def)
  then have "\<forall>p \<in># {#Path_new a#}. getEnd p |\<in>| nodes (graph cm)"
    by (simp add: Path_new_def getEnd_def)
  from solverLoop_no_exception[OF assms(3)[unfolded shortestPathSolver_def] \<open>repOK (graph cm)\<close> this]
  show ?thesis .
qed

text \<open>
  C3. Let the map be as the constructor leaves it (\<open>mapOK\<close>), built from validated
  records, so that no building has the empty string for its short name, and let the
  solver answer with an outcome of its loop. Then \<open>findShortestPath\<close> throws
  \<open>IllegalArgumentException\<close> exactly when one of the two names is \<open>null\<close>, is empty or is
  not a registered short name, whatever the other name is; and with two names that are
  neither, it throws nothing at all. (The method tests \<open>== null\<close> and \<open>shortNameExists\<close>:
  the empty name fails as a name that is not registered.)
\<close>

theorem findShortestPath_IllegalArgument_iff:
  assumes "mapOK cm" and "\<not> registered cm (Some [])"
    and "solverAnswers dplus solver cm startShortName endShortName"
  shows "(fst (findShortestPath solver cm startShortName endShortName)
            = Inl IllegalArgumentException
          \<longleftrightarrow> (startShortName = None \<or> startShortName = Some []
                \<or> \<not> registered cm startShortName)
              \<or> (endShortName = None \<or> endShortName = Some []
                \<or> \<not> registered cm endShortName))
       \<and> (\<not> (startShortName = None \<or> startShortName = Some []
                \<or> \<not> registered cm startShortName)
          \<and> \<not> (endShortName = None \<or> endShortName = Some []
                \<or> \<not> registered cm endShortName) \<longrightarrow>
            \<not> isl (fst (findShortestPath solver cm startShortName endShortName)))"
proof (cases "registered cm startShortName \<and> registered cm endShortName")
  case False
  from assms(1) have "checkRep cm = Inr ()" by (simp add: mapOK_def)
  from findShortestPath_unregistered[OF this False, of solver] False show ?thesis
    by auto
next
  case True
  then obtain s e a b where names: "startShortName = Some s" "endShortName = Some e"
    and pts: "fmlookup (shortNameToPoint cm) s = Some a" "fmlookup (shortNameToPoint cm) e = Some b"
    by (cases startShortName; cases endShortName) (auto simp: registered_Some)
  from True assms(2) have valid: "startShortName \<noteq> Some []" "endShortName \<noteq> Some []"
    by auto
  from assms(1) have rep: "checkRep cm = Inr ()" by (simp add: mapOK_def)
  from assms(3) names pts have "shortestPathSolver dplus (graph cm) a b (solver (graph cm) a b)"
    by (simp add: solverAnswers_def)
  from solver_no_exception[OF assms(1) pts(1) this]
  have "\<not> isl (fst (findShortestPath solver cm startShortName endShortName))"
    by (auto simp: names findShortestPath_registered[OF rep pts] split: option.splits sum.splits)
  with True valid names show ?thesis by auto
qed

lemma campusWalk_run:
  "shortestPathSolver dplus (graph campus) \<lparr>ptX = 0, ptY = 0\<rparr> \<lparr>ptX = 3, ptY = 4\<rparr>
     (Inr (Some campusWalk))"
proof -
  let ?o = "\<lparr>ptX = 0, ptY = 0\<rparr> :: Point"
  let ?k = "\<lparr>ptX = 3, ptY = 4\<rparr> :: Point"
  have "polls dplus {#campusWalk#} campusWalk" by (simp add: polls_def)
  moreover have "loopBody (graph campus) ?k {#campusWalk#} {|?o|} campusWalk =
      Return (Inr (Some campusWalk))"
    by (simp add: loopBody_def campusWalk_def extend_def getEnd_def Path_new_def)
  ultimately have "solverLoop dplus (graph campus) ?k {#campusWalk#} {|?o|} (Inr (Some campusWalk))"
    by (rule solverLoop.leaves)
  moreover have "polls dplus {#Path_new ?o#} (Path_new ?o)" by (simp add: polls_def)
  moreover have "loopBody (graph campus) ?k {#Path_new ?o#} {||} (Path_new ?o) =
      Continue {#campusWalk#} {|?o|}"
    by (simp add: loopBody_def pushed_def Let_def listEdgesOut_def campus_def campusWalk_def extend_def
        getEnd_def Path_new_def)
  ultimately show ?thesis
    unfolding shortestPathSolver_def by (rule solverLoop.again[rotated 2])
qed

lemma campus_no_way_back:
  "shortestPathSolver dplus (graph campus) \<lparr>ptX = 3, ptY = 4\<rparr> \<lparr>ptX = 0, ptY = 0\<rparr> (Inr None)"
proof -
  let ?o = "\<lparr>ptX = 0, ptY = 0\<rparr> :: Point"
  let ?k = "\<lparr>ptX = 3, ptY = 4\<rparr> :: Point"
  have "solverLoop dplus (graph campus) ?o {#} {|?k|} (Inr None)"
    by (rule solverLoop.exhausted)
  moreover have "polls dplus {#Path_new ?k#} (Path_new ?k)" by (simp add: polls_def)
  moreover have "loopBody (graph campus) ?o {#Path_new ?k#} {||} (Path_new ?k) =
      Continue {#} {|?k|}"
    by (simp add: loopBody_def pushed_def Let_def listEdgesOut_def campus_def getEnd_def Path_new_def)
  ultimately show ?thesis
    unfolding shortestPathSolver_def by (rule solverLoop.again[rotated 2])
qed

lemma mapOK_campus: "mapOK campus"
  using CampusMap_new_mapOK[OF campus_built] by simp

theorem findShortestPath_IllegalArgument_iff_witness:
  "mapOK campus
   \<and> \<not> registered campus (Some [])
   \<and> solverAnswers doubleSum (\<lambda>g a b. Inr (Some campusWalk)) campus (Some ''CSE'') (Some ''KNE'')
   \<and> fst (findShortestPath (\<lambda>g a b. Inr (Some campusWalk)) campus (Some ''CSE'') (Some ''KNE''))
       = Inr (Some campusWalk)
   \<and> fst (findShortestPath (\<lambda>g a b. Inr (Some campusWalk)) campus (Some ''CSE'') (Some ''XYZ''))
       = Inl IllegalArgumentException
   \<and> fst (findShortestPath (\<lambda>g a b. Inr (Some campusWalk)) campus (Some []) (Some ''KNE''))
       = Inl IllegalArgumentException
   \<and> fst (findShortestPath (\<lambda>g a b. Inr (Some campusWalk)) campus None (Some ''KNE''))
       = Inl IllegalArgumentException"
proof -
  let ?solver = "\<lambda>(g :: (Point, real) LabeledGraph) (a :: Point) (b :: Point).
      (Inr (Some campusWalk) :: exn + Point Path option)"
  have 1: "solverAnswers doubleSum ?solver campus (Some ''CSE'') (Some ''KNE'')"
    using campusWalk_run by (simp add: solverAnswers_def campus_eval)
  have 2: "solverAnswers doubleSum ?solver campus (Some ''CSE'') (Some ''XYZ'')"
    by (simp add: solverAnswers_def campus_eval)
  have 3: "solverAnswers doubleSum ?solver campus (Some []) (Some ''KNE'')"
    by (simp add: solverAnswers_def campus_eval)
  have 4: "solverAnswers doubleSum ?solver campus None (Some ''KNE'')"
    by (simp add: solverAnswers_def pointFor_def)
  have r: "registered campus (Some ''CSE'')" "registered campus (Some ''KNE'')"
    "\<not> registered campus (Some ''XYZ'')" "\<not> registered campus (Some [])"
    by (simp_all add: registered_Some campus_eval)
  have "fst (findShortestPath ?solver campus (Some ''CSE'') (Some ''KNE'')) = Inr (Some campusWalk)"
    by (simp add: findShortestPath_registered[OF campus_eval(1,2,3)] campus_eval)
  then show ?thesis
    using findShortestPath_IllegalArgument_iff[OF mapOK_campus r(4) 2]
      findShortestPath_IllegalArgument_iff[OF mapOK_campus r(4) 3]
      findShortestPath_IllegalArgument_iff[OF mapOK_campus r(4) 4] mapOK_campus 1 r
    by simp
qed

text \<open>
  C4. Let the map be as the constructor leaves it, A and B registered short names, and the
  solver answer with an outcome of its loop, however costs are added. The call \<open>findShortestPath(A, B)\<close> returns a
  result \<open>v\<close>, which may be \<open>null\<close>, and leaves a map in which \<open>v\<close> is cached under \<open>(A, B)\<close>.
  A second call on that map returns \<open>v\<close> again and leaves the map as it is, whatever
  function stands for the solver: the solver is not consulted. The key is the ordered
  pair: when A and B differ, the call leaves the entry under \<open>(B, A)\<close> as it was, and its
  result does not depend on what is cached under \<open>(B, A)\<close>.
\<close>

theorem findShortestPath_cached:
  assumes "mapOK cm" and "registered cm (Some a)" and "registered cm (Some b)"
    and "solverAnswers dplus solver cm (Some a) (Some b)"
  shows "\<exists>v cm1. findShortestPath solver cm (Some a) (Some b) = (Inr v, cm1)
           \<and> (\<forall>solver'. findShortestPath solver' cm1 (Some a) (Some b) = (Inr v, cm1))
           \<and> fmlookup (shortestPathMap cm1) (a, b) = Some v
           \<and> (a \<noteq> b \<longrightarrow>
                fmlookup (shortestPathMap cm1) (b, a) = fmlookup (shortestPathMap cm) (b, a))
           \<and> (\<forall>w. a \<noteq> b \<longrightarrow>
                fst (findShortestPath solver
                       (cm\<lparr>shortestPathMap := fmupd (b, a) w (shortestPathMap cm)\<rparr>)
                       (Some a) (Some b)) = Inr v)"
proof -
  from assms(2,3) obtain pa pb where pts: "fmlookup (shortNameToPoint cm) a = Some pa"
    "fmlookup (shortNameToPoint cm) b = Some pb"
    by (auto simp: registered_Some)
  from assms(1) have rep: "checkRep cm = Inr ()" by (simp add: mapOK_def)
  note first = findShortestPath_registered[OF rep pts]
  show ?thesis
  proof (cases "fmlookup (shortestPathMap cm) (a, b)")
    case (Some cached)
    have "findShortestPath solver' cm (Some a) (Some b) = (Inr cached, cm)" for solver'
      by (simp add: first Some)
    moreover have "fst (findShortestPath solver
        (cm\<lparr>shortestPathMap := fmupd (b, a) w (shortestPathMap cm)\<rparr>) (Some a) (Some b))
        = Inr cached" if "a \<noteq> b" for w
      using that Some pts rep
      by (subst findShortestPath_registered[where a = pa and b = pb]) simp_all
    ultimately show ?thesis using Some by auto
  next
    case None
    from assms(4) pts have run: "shortestPathSolver dplus (graph cm) pa pb (solver (graph cm) pa pb)"
      by (simp add: solverAnswers_def)
    from solver_no_exception[OF assms(1) pts(1) run] obtain v
      where v: "solver (graph cm) pa pb = Inr v" by (cases "solver (graph cm) pa pb") auto
    let ?cm1 = "cm\<lparr>shortestPathMap := fmupd (a, b) v (shortestPathMap cm)\<rparr>"
    have 1: "findShortestPath solver cm (Some a) (Some b) = (Inr v, ?cm1)"
      by (simp add: first None v)
    have 2: "findShortestPath solver' ?cm1 (Some a) (Some b) = (Inr v, ?cm1)" for solver'
      using pts rep by (subst findShortestPath_registered[where a = pa and b = pb]) simp_all
    have 3: "fst (findShortestPath solver
        (cm\<lparr>shortestPathMap := fmupd (b, a) w (shortestPathMap cm)\<rparr>) (Some a) (Some b))
        = Inr v" if "a \<noteq> b" for w
      using that None pts rep v
      by (subst findShortestPath_registered[where a = pa and b = pb]) simp_all
    from 1 2 3 show ?thesis by auto
  qed
qed

theorem findShortestPath_cached_witness:
  "mapOK campus
   \<and> registered campus (Some ''KNE'') \<and> registered campus (Some ''CSE'')
   \<and> solverAnswers doubleSum (\<lambda>g a b. Inr None) campus (Some ''KNE'') (Some ''CSE'')
   \<and> findShortestPath (\<lambda>g a b. Inr None) campus (Some ''KNE'') (Some ''CSE'') =
       (Inr None, campus\<lparr>shortestPathMap := fmupd (''KNE'', ''CSE'') None fmempty\<rparr>)
   \<and> findShortestPath (\<lambda>g a b. Inl RuntimeException)
        (campus\<lparr>shortestPathMap := fmupd (''KNE'', ''CSE'') None fmempty\<rparr>)
        (Some ''KNE'') (Some ''CSE'') =
       (Inr None, campus\<lparr>shortestPathMap := fmupd (''KNE'', ''CSE'') None fmempty\<rparr>)
   \<and> fmlookup (shortestPathMap (campus\<lparr>shortestPathMap := fmupd (''KNE'', ''CSE'') None fmempty\<rparr>))
        (''CSE'', ''KNE'') = None"
proof -
  let ?solver = "\<lambda>(g :: (Point, real) LabeledGraph) (a :: Point) (b :: Point).
      (Inr None :: exn + Point Path option)"
  have r: "registered campus (Some ''KNE'')" "registered campus (Some ''CSE'')"
    by (simp_all add: registered_Some campus_eval)
  have s: "solverAnswers doubleSum ?solver campus (Some ''KNE'') (Some ''CSE'')"
    using campus_no_way_back by (simp add: solverAnswers_def campus_eval)
  have first: "findShortestPath ?solver campus (Some ''KNE'') (Some ''CSE'') =
      (Inr None, campus\<lparr>shortestPathMap := fmupd (''KNE'', ''CSE'') None fmempty\<rparr>)"
    by (simp add: findShortestPath_registered[OF campus_eval(1,3,2)] campus_eval)
  from findShortestPath_cached[OF mapOK_campus r s] first
  have "findShortestPath (\<lambda>g a b. Inl RuntimeException)
        (campus\<lparr>shortestPathMap := fmupd (''KNE'', ''CSE'') None fmempty\<rparr>)
        (Some ''KNE'') (Some ''CSE'') =
       (Inr None, campus\<lparr>shortestPathMap := fmupd (''KNE'', ''CSE'') None fmempty\<rparr>)"
    by auto
  with mapOK_campus r s first show ?thesis by simp
qed

text \<open>
  What a call can do to the map: nothing, or one new cache entry for the queried pair.
\<close>

lemma findShortestPath_cases:
  "snd (findShortestPath solver cm startShortName endShortName) = cm
   \<or> (\<exists>s e v. startShortName = Some s \<and> endShortName = Some e
         \<and> fst (findShortestPath solver cm startShortName endShortName) = Inr v
         \<and> fmlookup (shortestPathMap cm) (s, e) = None
         \<and> snd (findShortestPath solver cm startShortName endShortName)
             = cm\<lparr>shortestPathMap := fmupd (s, e) v (shortestPathMap cm)\<rparr>)"
  by (auto simp: findShortestPath_def shortNameExists_def Let_def
      split: option.splits sum.splits if_splits)

lemma findShortestPath_mapOK:
  assumes "mapOK cm"
  shows "mapOK (snd (findShortestPath solver cm startShortName endShortName))"
  using findShortestPath_cases[of solver cm startShortName endShortName] assms
  by (auto simp: mapOK_def)

text \<open>
  Some function answers every call with an outcome of the solver's loop, since the loop
  always has one.
\<close>

lemma solver_exists: "\<exists>solver. \<forall>cm s e. solverAnswers dplus solver cm s e"
proof -
  let ?solver = "\<lambda>(g :: (Point, real) LabeledGraph) a b. SOME r. shortestPathSolver dplus g a b r"
  have "shortestPathSolver dplus g a b (?solver g a b)" for g a b
  proof (rule someI_ex)
    show "\<exists>r. shortestPathSolver dplus g a b r"
      unfolding shortestPathSolver_def by (rule solverLoop_total)
  qed
  then have "\<forall>cm s e. solverAnswers dplus ?solver cm s e"
    unfolding solverAnswers_def by blast
  then show ?thesis by (rule exI[of _ ?solver])
qed

text \<open>
  C7. Every call of \<open>findShortestPath\<close> leaves the graph, the building set and the two
  indices as they were, and every cache entry in place with its value. A call that
  throws, \<open>IllegalArgumentException\<close> or anything else, leaves the whole map unchanged. A
  call either leaves the map unchanged or returns a result and adds exactly one entry,
  that result under the queried ordered pair of names, which had no entry before.
\<close>

theorem findShortestPath_frame:
  "graph (snd (findShortestPath solver cm startShortName endShortName)) = graph cm
   \<and> buildings (snd (findShortestPath solver cm startShortName endShortName)) = buildings cm
   \<and> pointToBuildings (snd (findShortestPath solver cm startShortName endShortName))
       = pointToBuildings cm
   \<and> shortNameToPoint (snd (findShortestPath solver cm startShortName endShortName))
       = shortNameToPoint cm
   \<and> (\<forall>key v. fmlookup (shortestPathMap cm) key = Some v \<longrightarrow>
         fmlookup (shortestPathMap (snd (findShortestPath solver cm startShortName endShortName)))
           key = Some v)
   \<and> (isl (fst (findShortestPath solver cm startShortName endShortName)) \<longrightarrow>
         snd (findShortestPath solver cm startShortName endShortName) = cm)
   \<and> (snd (findShortestPath solver cm startShortName endShortName) = cm
       \<or> (\<exists>s e v. startShortName = Some s \<and> endShortName = Some e
             \<and> fst (findShortestPath solver cm startShortName endShortName) = Inr v
             \<and> (s, e) |\<notin>| fmdom (shortestPathMap cm)
             \<and> snd (findShortestPath solver cm startShortName endShortName)
                 = cm\<lparr>shortestPathMap := fmupd (s, e) v (shortestPathMap cm)\<rparr>))"
proof -
  let ?r = "findShortestPath solver cm startShortName endShortName"
  from findShortestPath_cases[of solver cm startShortName endShortName] show ?thesis
  proof
    assume "snd ?r = cm"
    then show ?thesis by simp
  next
    assume "\<exists>s e v. startShortName = Some s \<and> endShortName = Some e \<and> fst ?r = Inr v
            \<and> fmlookup (shortestPathMap cm) (s, e) = None
            \<and> snd ?r = cm\<lparr>shortestPathMap := fmupd (s, e) v (shortestPathMap cm)\<rparr>"
    then obtain s e v where *: "startShortName = Some s" "endShortName = Some e" "fst ?r = Inr v"
      "fmlookup (shortestPathMap cm) (s, e) = None"
      "snd ?r = cm\<lparr>shortestPathMap := fmupd (s, e) v (shortestPathMap cm)\<rparr>"
      by blast
    have "\<forall>key w. fmlookup (shortestPathMap cm) key = Some w \<longrightarrow>
        fmlookup (shortestPathMap (snd ?r)) key = Some w"
      using * by auto
    moreover have "(s, e) |\<notin>| fmdom (shortestPathMap cm)"
      using *(4) by (simp add: fmdom_notI)
    ultimately show ?thesis using * by (simp del: fmupd_lookup)
  qed
qed

theorem findShortestPath_frame_witness:
  "graph (snd (findShortestPath (\<lambda>g a b. Inr (Some campusWalk)) campus (Some ''CSE'') (Some ''KNE'')))
     = graph campus
   \<and> shortNameToPoint (snd (findShortestPath (\<lambda>g a b. Inr (Some campusWalk)) campus
        (Some ''CSE'') (Some ''KNE''))) = shortNameToPoint campus
   \<and> snd (findShortestPath (\<lambda>g a b. Inr (Some campusWalk)) campus (Some ''CSE'') (Some ''KNE''))
       = campus\<lparr>shortestPathMap := fmupd (''CSE'', ''KNE'') (Some campusWalk) fmempty\<rparr>
   \<and> snd (findShortestPath (\<lambda>g a b. Inr (Some campusWalk)) campus (Some ''CSE'') (Some ''XYZ''))
       = campus"
proof -
  let ?solver = "\<lambda>(g :: (Point, real) LabeledGraph) (a :: Point) (b :: Point).
      (Inr (Some campusWalk) :: exn + Point Path option)"
  have "isl (fst (findShortestPath ?solver campus (Some ''CSE'') (Some ''XYZ'')))"
    by (simp add: findShortestPath_unregistered registered_Some campus_eval)
  then have "snd (findShortestPath ?solver campus (Some ''CSE'') (Some ''XYZ'')) = campus"
    using findShortestPath_frame[of ?solver campus "Some ''CSE''" "Some ''XYZ''"] by blast
  moreover have "snd (findShortestPath ?solver campus (Some ''CSE'') (Some ''KNE''))
       = campus\<lparr>shortestPathMap := fmupd (''CSE'', ''KNE'') (Some campusWalk) fmempty\<rparr>"
    by (simp add: findShortestPath_registered[OF campus_eval(1,2,3)] campus_eval)
  ultimately show ?thesis
    using findShortestPath_frame[of ?solver campus "Some ''CSE''" "Some ''KNE''"] by simp
qed

end
